theory Spec2Isabelle
  imports Main "HOL-Library.Word" "HOL-Library.Signed_Division"
begin

unbundle bit_operations_syntax

text \<open>
  A shallow embedding of the time and timezone functions of jay::time (\<open>time.hpp\<close>,
  \<open>time.cpp\<close>, \<open>timezone.hpp\<close>, \<open>timezone.cpp\<close>), and the properties of its
  specification settled on it. Every function keeps its name; a function that writes
  through a reference returns what the caller's variable holds afterwards, and a
  function that writes its output on success only returns an option.
\<close>

section \<open>Machine types of the Windows API\<close>

text \<open>
  The library is written against the Windows headers: \<open>WORD\<close> is an unsigned 16-bit
  integer, \<open>DWORD\<close> and \<open>unsigned\<close> are unsigned 32-bit integers, \<open>LONG\<close> is a signed
  32-bit integer and \<open>long long\<close> a signed 64-bit integer. Each is a word of that width;
  signed values are read with \<open>sint\<close> and compared with \<open><s\<close>.
\<close>

type_synonym WORD = "16 word"
type_synonym DWORD = "32 word"
type_synonym unsigned = "32 word"
type_synonym LONG = "32 word"
type_synonym longlong = "64 word"

record SYSTEMTIME =
  wYear :: WORD
  wMonth :: WORD
  wDayOfWeek :: WORD
  wDay :: WORD
  wHour :: WORD
  wMinute :: WORD
  wSecond :: WORD
  wMilliseconds :: WORD

record FILETIME =
  dwLowDateTime :: DWORD
  dwHighDateTime :: DWORD

section \<open>time.cpp: calendar fields\<close>

definition IsYearValid :: "unsigned \<Rightarrow> bool" where
  "IsYearValid year \<longleftrightarrow> year \<ge> 1601 \<and> year \<le> 30827"

definition IsLeapYear :: "unsigned \<Rightarrow> bool" where
  "IsLeapYear year =
     (if year mod 400 = 0 then True
      else if year mod 100 = 0 then False
      else if year mod 4 = 0 then True
      else False)"

definition days_in_month :: "unsigned list" where
  "days_in_month = [31, 28, 31, 30, 31, 30, 31, 31, 30, 31, 30, 31]"

definition IsDateValid :: "unsigned \<Rightarrow> unsigned \<Rightarrow> unsigned \<Rightarrow> bool" where
  "IsDateValid day month year =
     (if \<not> IsYearValid year \<or> (month < 1 \<or> month > 12) \<or> (day < 1 \<or> day > 31)
      then False
      else day \<le> days_in_month ! unat (month - 1)
           \<or> (day = 29 \<and> month = 2 \<and> IsLeapYear year))"

definition sakamoto_t :: "unsigned list" where
  "sakamoto_t = [0, 3, 2, 5, 0, 3, 5, 1, 4, 6, 2, 4]"

text \<open>
  \<open>GetDayOfWeek\<close> computes in \<open>unsigned\<close> arithmetic and returns an \<open>unsigned short\<close>.
  The comparison \<open>month < 3\<close> is the integer 0 or 1 subtracted from the year.
\<close>

definition GetDayOfWeek :: "unsigned \<Rightarrow> unsigned \<Rightarrow> unsigned \<Rightarrow> WORD" where
  "GetDayOfWeek day month year =
     (if month < 1 \<or> month > 12 then 0
      else let y = year - (if month < 3 then 1 else 0)
           in ucast ((y + y div 4 - y div 100 + y div 400
                      + sakamoto_t ! unat (month - 1) + day) mod 7))"

definition IsSystemTimeValid_IgnoreDayOfWeek :: "SYSTEMTIME \<Rightarrow> bool" where
  "IsSystemTimeValid_IgnoreDayOfWeek st \<longleftrightarrow>
     IsDateValid (ucast (wDay st)) (ucast (wMonth st)) (ucast (wYear st))
     \<and> wHour st \<le> 23
     \<and> wMinute st \<le> 59
     \<and> wSecond st \<le> 59
     \<and> wMilliseconds st \<le> 999"

definition IsSystemTimeValid :: "SYSTEMTIME \<Rightarrow> bool" where
  "IsSystemTimeValid st \<longleftrightarrow>
     IsSystemTimeValid_IgnoreDayOfWeek st
     \<and> wDayOfWeek st = GetDayOfWeek (ucast (wDay st)) (ucast (wMonth st)) (ucast (wYear st))"

section \<open>time.cpp: 100 ns ticks\<close>

definition IsFileTimeValid :: "FILETIME \<Rightarrow> bool" where
  "IsFileTimeValid ft \<longleftrightarrow>
     dwHighDateTime ft < 0x7FFF35F4
     \<or> (dwHighDateTime ft = 0x7FFF35F4 \<and> dwLowDateTime ft \<le> 0xF06C58F0)"

text \<open>
  \<open>LARGE_INTEGER\<close> is a union of a signed 64-bit \<open>QuadPart\<close> with the pair of its low and
  high 32-bit halves.
\<close>

definition QuadPart :: "DWORD \<Rightarrow> DWORD \<Rightarrow> longlong" where
  "QuadPart lo hi = word_cat hi lo"

definition LowPart :: "longlong \<Rightarrow> DWORD" where
  "LowPart q = ucast q"

definition HighPart :: "longlong \<Rightarrow> DWORD" where
  "HighPart q = ucast (drop_bit 32 q)"

definition LLONG_MIN :: longlong where
  "LLONG_MIN = 0x8000000000000000"

definition LLONG_MAX :: longlong where
  "LLONG_MAX = 0x7FFFFFFFFFFFFFFF"

text \<open>
  The functions that update a \<open>FILETIME &\<close> in place return the flag together with the
  value the caller's variable holds afterwards.
\<close>

definition FileTimeSubtract100nsIntervals :: "FILETIME \<Rightarrow> longlong \<Rightarrow> bool \<times> FILETIME" where
  "FileTimeSubtract100nsIntervals ft intervals =
     (if \<not> IsFileTimeValid ft then (False, ft)
      else if intervals = 0 then (True, ft)
      else
        let li = QuadPart (dwLowDateTime ft) (dwHighDateTime ft) in
        if (0 <s intervals \<and> li <s LLONG_MIN + intervals)
           \<or> (intervals <s 0 \<and> LLONG_MAX + intervals <s li)
        then (False, ft)
        else
          let li' = li - intervals;
              ft' = ft\<lparr>dwLowDateTime := LowPart li', dwHighDateTime := HighPart li'\<rparr>
          in (IsFileTimeValid ft', ft'))"

definition FileTimeAdd100nsIntervals :: "FILETIME \<Rightarrow> longlong \<Rightarrow> bool \<times> FILETIME" where
  "FileTimeAdd100nsIntervals ft intervals =
     (if (intervals <s 0 \<and> LLONG_MAX + intervals <s 0)
         \<or> (0 <s intervals \<and> 0 <s LLONG_MIN + intervals)
      then (False, ft)
      else FileTimeSubtract100nsIntervals ft (- intervals))"

text \<open>
  The product \<open>minutes * 10000 * 1000 * 60\<close> is a \<open>long long\<close> product without any
  check; on the two's complement targets of the library it wraps modulo \<open>2 ^ 64\<close>, which
  is the product of 64-bit words.
\<close>

definition FileTimeSubtractMinutes :: "FILETIME \<Rightarrow> longlong \<Rightarrow> bool \<times> FILETIME" where
  "FileTimeSubtractMinutes ft minutes =
     FileTimeSubtract100nsIntervals ft (minutes * 10000 * 1000 * 60)"

definition FileTimeAddMinutes :: "FILETIME \<Rightarrow> longlong \<Rightarrow> bool \<times> FILETIME" where
  "FileTimeAddMinutes ft minutes =
     FileTimeAdd100nsIntervals ft (minutes * 10000 * 1000 * 60)"

text \<open>
  \<open>SystemTimeToFileTime\<close> and \<open>FileTimeToSystemTime\<close> belong to the operating system, not
  to the library. The functions that call them take the pair as a parameter; \<open>None\<close> is
  the call returning zero.
\<close>

record winapi =
  SystemTimeToFileTime :: "SYSTEMTIME \<Rightarrow> FILETIME option"
  FileTimeToSystemTime :: "FILETIME \<Rightarrow> SYSTEMTIME option"

text \<open>
  \<open>SystemTimeSubtractMinutes\<close> is a chain of \<open>&&\<close>; its argument is written only by the
  last call of the chain, so the result is the new time or \<open>None\<close> for \<open>false\<close>.
\<close>

definition SystemTimeSubtractMinutes :: "winapi \<Rightarrow> SYSTEMTIME \<Rightarrow> longlong \<Rightarrow> SYSTEMTIME option" where
  "SystemTimeSubtractMinutes api st minutes =
     (if \<not> IsSystemTimeValid st then None
      else case SystemTimeToFileTime api st of
        None \<Rightarrow> None
      | Some ft \<Rightarrow>
          (case FileTimeSubtractMinutes ft minutes of
             (False, _) \<Rightarrow> None
           | (True, ft') \<Rightarrow> FileTimeToSystemTime api ft'))"

definition SystemTimeAddMinutes :: "winapi \<Rightarrow> SYSTEMTIME \<Rightarrow> longlong \<Rightarrow> SYSTEMTIME option" where
  "SystemTimeAddMinutes api st minutes =
     (if \<not> IsSystemTimeValid st then None
      else case SystemTimeToFileTime api st of
        None \<Rightarrow> None
      | Some ft \<Rightarrow>
          (case FileTimeAddMinutes ft minutes of
             (False, _) \<Rightarrow> None
           | (True, ft') \<Rightarrow> FileTimeToSystemTime api ft'))"

section \<open>time.cpp: comparison\<close>

definition CompareSystemTimes_IgnoreDayOfWeek :: "SYSTEMTIME \<Rightarrow> SYSTEMTIME \<Rightarrow> int" where
  "CompareSystemTimes_IgnoreDayOfWeek a b =
     (if wYear a < wYear b then - 1 else if wYear a > wYear b then 1
      else if wMonth a < wMonth b then - 1 else if wMonth a > wMonth b then 1
      else if wDay a < wDay b then - 1 else if wDay a > wDay b then 1
      else if wHour a < wHour b then - 1 else if wHour a > wHour b then 1
      else if wMinute a < wMinute b then - 1 else if wMinute a > wMinute b then 1
      else if wSecond a < wSecond b then - 1 else if wSecond a > wSecond b then 1
      else if wMilliseconds a < wMilliseconds b then - 1
      else if wMilliseconds a > wMilliseconds b then 1
      else 0)"

definition CompareSystemTimes :: "SYSTEMTIME \<Rightarrow> SYSTEMTIME \<Rightarrow> int" where
  "CompareSystemTimes a b =
     (let x = CompareSystemTimes_IgnoreDayOfWeek a b in
      if x \<noteq> 0 then x
      else if wDayOfWeek a < wDayOfWeek b then - 1
      else if wDayOfWeek a > wDayOfWeek b then 1
      else 0)"

section \<open>timezone.cpp: transition rules\<close>

record TIME_ZONE_INFORMATION =
  Bias :: LONG
  StandardName :: "WORD list"
  StandardDate :: SYSTEMTIME
  StandardBias :: LONG
  DaylightName :: "WORD list"
  DaylightDate :: SYSTEMTIME
  DaylightBias :: LONG

text \<open>
  The identifiers, with their values in the Windows headers: 0, 1, 2 and \<open>(DWORD) 0xFFFFFFFF\<close>.
\<close>

definition TIME_ZONE_ID_UNKNOWN :: DWORD where
  "TIME_ZONE_ID_UNKNOWN = 0"

definition TIME_ZONE_ID_STANDARD :: DWORD where
  "TIME_ZONE_ID_STANDARD = 1"

definition TIME_ZONE_ID_DAYLIGHT :: DWORD where
  "TIME_ZONE_ID_DAYLIGHT = 2"

definition TIME_ZONE_ID_INVALID :: DWORD where
  "TIME_ZONE_ID_INVALID = 0xFFFFFFFF"

definition IsRelativeTimezoneTimeValid :: "SYSTEMTIME \<Rightarrow> bool" where
  "IsRelativeTimezoneTimeValid tzt \<longleftrightarrow>
     wYear tzt = 0
     \<and> (wMonth tzt \<ge> 1 \<and> wMonth tzt \<le> 12)
     \<and> wDayOfWeek tzt \<le> 6
     \<and> (wDay tzt \<ge> 1 \<and> wDay tzt \<le> 5)
     \<and> wHour tzt \<le> 23
     \<and> wMinute tzt \<le> 59
     \<and> wSecond tzt \<le> 59
     \<and> wMilliseconds tzt \<le> 999"

definition IsAbsoluteTimezoneTimeValid :: "SYSTEMTIME \<Rightarrow> bool" where
  "IsAbsoluteTimezoneTimeValid tzt = IsSystemTimeValid_IgnoreDayOfWeek tzt"

definition IsTimezoneTimeValid :: "SYSTEMTIME \<Rightarrow> bool" where
  "IsTimezoneTimeValid tzt \<longleftrightarrow>
     IsRelativeTimezoneTimeValid tzt \<or> IsAbsoluteTimezoneTimeValid tzt"

definition IsTimezoneTimeIgnored :: "SYSTEMTIME \<Rightarrow> bool" where
  "IsTimezoneTimeIgnored tzt \<longleftrightarrow> wMonth tzt = 0"

definition AreTimezoneBiasesValid :: "TIME_ZONE_INFORMATION \<Rightarrow> bool" where
  "AreTimezoneBiasesValid tzi =
     (let max_diff = (24 * 60 :: LONG) in
      if (0 <s Bias tzi \<and> max_diff <s Bias tzi)
         \<or> (Bias tzi <s 0 \<and> Bias tzi <s - max_diff)
         \<or> (0 <s StandardBias tzi \<and> max_diff - StandardBias tzi <s Bias tzi)
         \<or> (StandardBias tzi <s 0 \<and> Bias tzi <s - max_diff - StandardBias tzi)
         \<or> (0 <s DaylightBias tzi \<and> max_diff - DaylightBias tzi <s Bias tzi)
         \<or> (DaylightBias tzi <s 0 \<and> Bias tzi <s - max_diff - DaylightBias tzi)
      then False
      else True)"

text \<open>
  The names are arrays of 32 wide characters; \<open>wmemchr\<close> looks for the terminating zero
  among them.
\<close>

definition IsTimezoneInfoValid :: "TIME_ZONE_INFORMATION \<Rightarrow> bool \<Rightarrow> bool" where
  "IsTimezoneInfoValid tzi allow_ignored_dates \<longleftrightarrow>
     AreTimezoneBiasesValid tzi
     \<and> (IsTimezoneTimeValid (StandardDate tzi)
        \<or> (allow_ignored_dates \<and> IsTimezoneTimeIgnored (StandardDate tzi)))
     \<and> (IsTimezoneTimeValid (DaylightDate tzi)
        \<or> (allow_ignored_dates \<and> IsTimezoneTimeIgnored (DaylightDate tzi)))
     \<and> 0 \<in> set (take 32 (StandardName tzi))
     \<and> 0 \<in> set (take 32 (DaylightName tzi))"

text \<open>
  A \<open>WORD\<close> operand is promoted to \<open>int\<close>, so \<open>(local.wDay - 1) / 7\<close> is a signed,
  truncating division of integers and \<open>local.wDay + 7\<close> an integer sum; both are then
  converted to \<open>unsigned\<close>. An output parameter that is written on success only is the
  \<open>Some\<close> of the result.
\<close>

definition LocalTimeToRelativeTimezoneTime :: "SYSTEMTIME \<Rightarrow> bool \<Rightarrow> SYSTEMTIME option" where
  "LocalTimeToRelativeTimezoneTime local make_final_occurrence_if_last_occurrence =
     (if \<not> IsSystemTimeValid_IgnoreDayOfWeek local then None
      else
        let occurrence0 = (word_of_int ((uint (wDay local) - 1) sdiv 7 + 1) :: unsigned);
            occurrence =
              (if occurrence0 = 4
                  \<and> \<not> IsDateValid (word_of_int (uint (wDay local) + 7))
                         (ucast (wMonth local)) (ucast (wYear local))
                  \<and> make_final_occurrence_if_last_occurrence
               then 5 else occurrence0)
        in Some (local\<lparr>
             wDay := ucast occurrence,
             wDayOfWeek :=
               GetDayOfWeek (ucast (wDay local)) (ucast (wMonth local)) (ucast (wYear local)),
             wYear := 0\<rparr>))"

definition TimezoneTimeToLocalTime :: "SYSTEMTIME \<Rightarrow> unsigned \<Rightarrow> SYSTEMTIME option" where
  "TimezoneTimeToLocalTime tzt tzt_year =
     (if \<not> IsRelativeTimezoneTimeValid tzt then
        (if IsAbsoluteTimezoneTimeValid tzt
         then Some (tzt\<lparr>wDayOfWeek :=
                GetDayOfWeek (ucast (wDay tzt)) (ucast (wMonth tzt)) (ucast (wYear tzt))\<rparr>)
         else None)
      else if \<not> IsYearValid tzt_year then None
      else
        let first_day_of_week = (ucast (GetDayOfWeek 1 (ucast (wMonth tzt)) tzt_year) :: unsigned);
            days_after_first_occurrence = (word_of_int ((uint (wDay tzt) - 1) * 7) :: unsigned);
            dow = (ucast (wDayOfWeek tzt) :: unsigned);
            day0 =
              (if first_day_of_week \<le> dow
               then (dow - first_day_of_week) + 1 + days_after_first_occurrence
               else (6 - first_day_of_week) + 1 + dow + 1 + days_after_first_occurrence);
            day = (if \<not> IsDateValid day0 (ucast (wMonth tzt)) tzt_year then day0 - 7 else day0)
        in Some (tzt\<lparr>wDay := ucast day, wYear := ucast tzt_year\<rparr>))"

definition zero_SYSTEMTIME :: SYSTEMTIME where
  "zero_SYSTEMTIME =
     \<lparr>wYear = 0, wMonth = 0, wDayOfWeek = 0, wDay = 0,
      wHour = 0, wMinute = 0, wSecond = 0, wMilliseconds = 0\<rparr>"

text \<open>
  \<open>CompareLocalTimeToTimezoneTime\<close> ignores the flag of the conversion: when it fails,
  \<open>local2\<close> keeps its initial value, all zero.
\<close>

definition CompareLocalTimeToTimezoneTime :: "SYSTEMTIME \<Rightarrow> SYSTEMTIME \<Rightarrow> int" where
  "CompareLocalTimeToTimezoneTime local tzt =
     (let local2 =
            (case TimezoneTimeToLocalTime tzt (ucast (wYear local)) of
               None \<Rightarrow> zero_SYSTEMTIME
             | Some l \<Rightarrow> l)
      in CompareSystemTimes local local2)"

section \<open>timezone.cpp: resolving the observance\<close>

text \<open>
  The macro \<open>COPY_TO_local_time\<close> assigns the candidate to \<open>local_time\<close> and leaves the
  function with \<open>TIME_ZONE_ID_INVALID\<close> when strict mode finds another year; otherwise
  the statement after it returns the identifier \<open>tzid\<close>. The result is the returned
  identifier with the contents of \<open>local_time\<close>.
\<close>

definition COPY_TO_local_time :: "bool \<Rightarrow> unsigned \<Rightarrow> SYSTEMTIME \<Rightarrow> DWORD \<Rightarrow> DWORD \<times> SYSTEMTIME" where
  "COPY_TO_local_time strict tzi_year newtime tzid =
     (if strict \<and> ucast (wYear newtime) \<noteq> tzi_year
      then (TIME_ZONE_ID_INVALID, newtime)
      else (tzid, newtime))"

text \<open>
  The sums of biases are \<open>LONG\<close> sums, widened to \<open>long long\<close> at the call. The first
  exit returns \<open>false\<close>, the \<open>DWORD\<close> zero. \<open>SetLastError\<close> only records a diagnostic
  code which no branch depends on; it is left out.
\<close>

definition GetLocalTimeForTimezone ::
  "winapi \<Rightarrow> SYSTEMTIME \<Rightarrow> TIME_ZONE_INFORMATION \<Rightarrow> SYSTEMTIME \<Rightarrow> unsigned \<Rightarrow> bool
     \<Rightarrow> DWORD \<times> SYSTEMTIME" where
  "GetLocalTimeForTimezone api local_time tzi utc_st tzi_year0 strict =
     (let tzi_year = (if tzi_year0 = 0 then ucast (wYear utc_st) else tzi_year0) in
      if \<not> IsYearValid tzi_year then (0, local_time)
      else if \<not> IsTimezoneInfoValid tzi True then (TIME_ZONE_ID_INVALID, local_time)
      else case SystemTimeSubtractMinutes api utc_st (scast (Bias tzi)) of
        None \<Rightarrow> (TIME_ZONE_ID_INVALID, local_time)
      | Some local_time_if_unknown \<Rightarrow>
      (case SystemTimeSubtractMinutes api utc_st (scast (Bias tzi + StandardBias tzi)) of
        None \<Rightarrow> (TIME_ZONE_ID_INVALID, local_time)
      | Some local_time_if_standard \<Rightarrow>
      (case SystemTimeSubtractMinutes api utc_st (scast (Bias tzi + DaylightBias tzi)) of
        None \<Rightarrow> (TIME_ZONE_ID_INVALID, local_time)
      | Some local_time_if_daylight \<Rightarrow>
      if strict
         \<and> ucast (wYear local_time_if_unknown) \<noteq> tzi_year
         \<and> ucast (wYear local_time_if_standard) \<noteq> tzi_year
         \<and> ucast (wYear local_time_if_daylight) \<noteq> tzi_year
      then (TIME_ZONE_ID_INVALID, local_time)
      else
        (case TimezoneTimeToLocalTime (StandardDate tzi) tzi_year of
          None \<Rightarrow> COPY_TO_local_time strict tzi_year local_time_if_unknown TIME_ZONE_ID_UNKNOWN
        | Some local_standard_start \<Rightarrow>
        (case TimezoneTimeToLocalTime (DaylightDate tzi) tzi_year of
          None \<Rightarrow> COPY_TO_local_time strict tzi_year local_time_if_unknown TIME_ZONE_ID_UNKNOWN
        | Some local_daylight_start \<Rightarrow>
          let is_standard_time_before_daylight_start =
                (CompareSystemTimes local_time_if_standard local_daylight_start < 0);
              is_daylight_time_before_standard_start =
                (CompareSystemTimes local_time_if_daylight local_standard_start < 0);
              cmp_standard_start_to_daylight_start =
                CompareSystemTimes local_standard_start local_daylight_start
          in
            if cmp_standard_start_to_daylight_start < 0 then
              (if \<not> is_daylight_time_before_standard_start
                  \<and> is_standard_time_before_daylight_start
               then COPY_TO_local_time strict tzi_year local_time_if_standard
                      TIME_ZONE_ID_STANDARD
               else COPY_TO_local_time strict tzi_year local_time_if_daylight
                      TIME_ZONE_ID_DAYLIGHT)
            else if cmp_standard_start_to_daylight_start > 0 then
              (if \<not> is_standard_time_before_daylight_start
                  \<and> is_daylight_time_before_standard_start
               then COPY_TO_local_time strict tzi_year local_time_if_daylight
                      TIME_ZONE_ID_DAYLIGHT
               else COPY_TO_local_time strict tzi_year local_time_if_standard
                      TIME_ZONE_ID_STANDARD)
            else if DaylightBias tzi \<noteq> 0 then
              COPY_TO_local_time strict tzi_year local_time_if_daylight TIME_ZONE_ID_DAYLIGHT
            else
              COPY_TO_local_time strict tzi_year local_time_if_unknown
                TIME_ZONE_ID_UNKNOWN)))))"

section \<open>timezone.cpp: the year boundary\<close>






section \<open>The order of attempts, in the words of the specification\<close>



section \<open>The operating system's conversions, for the examples\<close>

text \<open>
  Modelled from the spec: the conversion between tick counts and calendar fields is an
  external primitive (the Windows calls \<open>SystemTimeToFileTime\<close> and
  \<open>FileTimeToSystemTime\<close>), which the library calls and does not contain. The spec
  gives ticks as 100 ns intervals since the year 1601 and the conversion as lossless in
  both directions. The theorems below hold for every pair of conversions; this pair
  counts days of the Gregorian calendar from 1601-01-01, a Monday, and serves to run the
  library on concrete times.
\<close>

definition is_leap :: "int \<Rightarrow> bool" where
  "is_leap y \<longleftrightarrow> y mod 400 = 0 \<or> (y mod 4 = 0 \<and> y mod 100 \<noteq> 0)"

definition month_lengths :: "int \<Rightarrow> int list" where
  "month_lengths y =
     [31, if is_leap y then 29 else 28, 31, 30, 31, 30, 31, 31, 30, 31, 30, 31]"

definition days_before_year :: "int \<Rightarrow> int" where
  "days_before_year y =
     (let n = y - 1601 in n * 365 + n div 4 - n div 100 + n div 400)"

fun days_before_month :: "int list \<Rightarrow> int \<Rightarrow> int" where
  "days_before_month [] m = 0"
| "days_before_month (l # ls) m =
     (if m \<le> 1 then 0 else l + days_before_month ls (m - 1))"

definition days_from_civil :: "int \<Rightarrow> int \<Rightarrow> int \<Rightarrow> int" where
  "days_from_civil y m d =
     days_before_year y + days_before_month (month_lengths y) m + (d - 1)"

fun month_and_day :: "int list \<Rightarrow> int \<Rightarrow> int \<Rightarrow> int \<times> int" where
  "month_and_day [] m r = (m, r + 1)"
| "month_and_day (l # ls) m r =
     (if r < l then (m, r + 1) else month_and_day ls (m + 1) (r - l))"

definition civil_from_days :: "int \<Rightarrow> int \<times> int \<times> int" where
  "civil_from_days n =
     (let n400 = n div 146097; r1 = n mod 146097;
          n100 = min 3 (r1 div 36524); r2 = r1 - n100 * 36524;
          n4 = r2 div 1461; r3 = r2 mod 1461;
          n1 = min 3 (r3 div 365); r4 = r3 - n1 * 365;
          y = 1601 + 400 * n400 + 100 * n100 + 4 * n4 + n1;
          md = month_and_day (month_lengths y) 1 r4
      in (y, fst md, snd md))"

definition filetime_of_ticks :: "int \<Rightarrow> FILETIME" where
  "filetime_of_ticks n =
     \<lparr>dwLowDateTime = word_of_int (n mod 2 ^ 32),
      dwHighDateTime = word_of_int (n div 2 ^ 32)\<rparr>"

definition SystemTimeToFileTime_ref :: "SYSTEMTIME \<Rightarrow> FILETIME option" where
  "SystemTimeToFileTime_ref st =
     (if \<not> IsSystemTimeValid_IgnoreDayOfWeek st then None
      else Some (filetime_of_ticks
        (((((days_from_civil (uint (wYear st)) (uint (wMonth st)) (uint (wDay st)) * 24
             + uint (wHour st)) * 60 + uint (wMinute st)) * 60 + uint (wSecond st)) * 1000
           + uint (wMilliseconds st)) * 10000)))"

definition FileTimeToSystemTime_ref :: "FILETIME \<Rightarrow> SYSTEMTIME option" where
  "FileTimeToSystemTime_ref ft =
     (let t = uint (QuadPart (dwLowDateTime ft) (dwHighDateTime ft)) in
      if 2 ^ 63 \<le> t then None
      else
        let ms = t div 10000; s = ms div 1000; mi = s div 60; h = mi div 60; n = h div 24;
            ymd = civil_from_days n
        in Some \<lparr>wYear = word_of_int (fst ymd), wMonth = word_of_int (fst (snd ymd)),
                 wDayOfWeek = word_of_int ((n + 1) mod 7), wDay = word_of_int (snd (snd ymd)),
                 wHour = word_of_int (h mod 24), wMinute = word_of_int (mi mod 60),
                 wSecond = word_of_int (s mod 60), wMilliseconds = word_of_int (ms mod 1000)\<rparr>)"

definition reference_api :: winapi where
  "reference_api =
     \<lparr>SystemTimeToFileTime = SystemTimeToFileTime_ref,
      FileTimeToSystemTime = FileTimeToSystemTime_ref\<rparr>"

section \<open>Example inputs\<close>

text \<open>A rule set with the given biases and transitions, and empty names.\<close>

definition example_zone ::
  "LONG \<Rightarrow> LONG \<Rightarrow> LONG \<Rightarrow> SYSTEMTIME \<Rightarrow> SYSTEMTIME \<Rightarrow> TIME_ZONE_INFORMATION" where
  "example_zone b sb db sd dd =
     \<lparr>Bias = b, StandardName = [0], StandardDate = sd, StandardBias = sb,
      DaylightName = [0], DaylightDate = dd, DaylightBias = db\<rparr>"

text \<open>A rule set whose \<open>Bias\<close> is 2000 minutes while both sums are 1000 minutes.\<close>

definition far_bias_zone :: TIME_ZONE_INFORMATION where
  "far_bias_zone = example_zone 2000 (- 1000) (- 1000) zero_SYSTEMTIME zero_SYSTEMTIME"

definition example_time :: "WORD \<Rightarrow> WORD \<Rightarrow> WORD \<Rightarrow> WORD \<Rightarrow> WORD \<Rightarrow> WORD \<Rightarrow> SYSTEMTIME" where
  "example_time y m d dow h mi =
     \<lparr>wYear = y, wMonth = m, wDayOfWeek = dow, wDay = d,
      wHour = h, wMinute = mi, wSecond = 0, wMilliseconds = 0\<rparr>"


text \<open>
  The last half hour of 2014 in UTC, a Wednesday; a rule set one hour ahead of UTC that
  observes no daylight time, and one a quarter of an hour ahead; the rule "second
  Sunday of March, 02:00"; and rule sets
  whose two transitions are both that rule, five hours behind UTC, with and without a
  daylight bias, with the noon of a Monday in June 2015.
\<close>

definition utc_2014_12_31_23_30 :: SYSTEMTIME where
  "utc_2014_12_31_23_30 = example_time 2014 12 31 3 23 30"

definition zone_ahead :: TIME_ZONE_INFORMATION where
  "zone_ahead = example_zone (- 60) 0 0 zero_SYSTEMTIME zero_SYSTEMTIME"






section \<open>Reading a tick count\<close>

text \<open>
  The signed 64-bit number of 100 ns intervals a \<open>FILETIME\<close> holds, as the library reads
  it through \<open>LARGE_INTEGER\<close>, and the largest supported one (the constant of
  \<open>IsFileTimeValid\<close>).
\<close>

definition ticks :: "FILETIME \<Rightarrow> int" where
  "ticks ft = sint (QuadPart (dwLowDateTime ft) (dwHighDateTime ft))"

definition MAX_TICKS :: int where
  "MAX_TICKS = 0x7FFF35F4F06C58F0"

section \<open>Leap years\<close>

lemma word_mod_eq_0_iff_dvd: "(year mod k = 0) = (unat k dvd unat year)"
  for year k :: "'a::len word"
  by (metis mod_eq_0_iff_dvd unat_eq_zero unat_mod)

text \<open>
  C9. For every unsigned year, \<open>IsLeapYear\<close> is true exactly when the year is divisible by
  400, or divisible by 4 and not by 100, without any range restriction; the four reference
  years 2000, 1900, 2024 and 2023 give true, false, true and false.
\<close>

theorem IsLeapYear_gregorian:
  "(IsLeapYear year \<longleftrightarrow>
      400 dvd unat year \<or> (4 dvd unat year \<and> \<not> 100 dvd unat year))
   \<and> IsLeapYear 2000 \<and> \<not> IsLeapYear 1900 \<and> IsLeapYear 2024 \<and> \<not> IsLeapYear 2023"
proof -
  have "(4::nat) dvd n" if "400 dvd n" for n :: nat
    using that by presburger
  then have "IsLeapYear year \<longleftrightarrow>
     400 dvd unat year \<or> (4 dvd unat year \<and> \<not> 100 dvd unat year)"
    by (auto simp: IsLeapYear_def word_mod_eq_0_iff_dvd)
  moreover have "IsLeapYear 2000" "\<not> IsLeapYear 1900" "IsLeapYear 2024" "\<not> IsLeapYear 2023"
    by (simp_all add: IsLeapYear_def)
  ultimately show ?thesis by blast
qed

theorem IsLeapYear_gregorian_witness:
  "IsLeapYear 1600 \<and> 400 dvd unat (1600 :: unsigned)
   \<and> \<not> IsLeapYear 2100 \<and> 100 dvd unat (2100 :: unsigned) \<and> 4 dvd unat (2100 :: unsigned)"
  using IsLeapYear_gregorian [of 1600] IsLeapYear_gregorian [of 2100] by simp

section \<open>Tick arithmetic\<close>

text \<open>
  The two halves of a \<open>FILETIME\<close> and the 64-bit value are each other's inverse, a
  \<open>FILETIME\<close> is valid exactly when its tick count lies between 0 and \<open>MAX_TICKS\<close>, and
  the overflow test of \<open>FileTimeSubtract100nsIntervals\<close> holds exactly when the integer
  difference leaves the signed 64-bit range.
\<close>

lemma LowPart_QuadPart: "LowPart (QuadPart lo hi) = lo"
  unfolding LowPart_def QuadPart_def
  by (rule bit_word_eqI) (simp add: bit_simps)

lemma HighPart_QuadPart: "HighPart (QuadPart lo hi) = hi"
  unfolding HighPart_def QuadPart_def
  by (rule bit_word_eqI) (simp add: bit_simps)

lemma QuadPart_parts: "QuadPart (LowPart q) (HighPart q) = q"
  unfolding HighPart_def QuadPart_def LowPart_def
  by (rule bit_word_eqI) (auto simp add: bit_simps)

lemma uint_QuadPart: "uint (QuadPart lo hi) = uint hi * 2 ^ 32 + uint lo"
proof -
  have hi: "0 \<le> uint hi" "uint hi < 2 ^ 32" and lo: "0 \<le> uint lo" "uint lo < 2 ^ 32"
    using uint_lt2p [of hi] uint_lt2p [of lo] by simp_all
  have a: "uint (ucast hi :: 64 word) = uint hi" "uint (ucast lo :: 64 word) = uint lo"
    by (simp_all add: uint_up_ucast is_up)
  have "uint hi * 2 ^ 32 \<le> (2 ^ 32 - 1) * 2 ^ 32"
    using hi by (intro mult_right_mono) simp_all
  then have b: "uint hi * 2 ^ 32 + uint lo < 2 ^ 64" "0 \<le> uint hi * 2 ^ 32 + uint lo" "0 \<le> uint hi * 2 ^ 32"
    "uint hi * 2 ^ 32  < 2 ^ 64"
    using lo hi by simp_all
  have "uint (push_bit 32 (ucast hi :: 64 word)) = uint hi * 2 ^ 32"
    using b by (simp add: push_bit_eq_mult uint_word_ariths a take_bit_eq_mod)
  then show ?thesis
    unfolding QuadPart_def using b
    by (simp add: word_cat_eq uint_word_ariths a take_bit_eq_mod)
qed

lemma sint64_uint:
  "sint (w :: 64 word) = (if uint w < 2 ^ 63 then uint w else uint w - 2 ^ 64)"
proof -
  have b: "0 \<le> uint w" "uint w < 2 ^ 64"
    using uint_lt2p [of w] by simp_all
  have s: "sint w = (uint w + 2 ^ 63) mod 2 ^ 64 - 2 ^ 63"
    by (simp add: sint_uint signed_take_bit_eq_take_bit_shift take_bit_eq_mod)
  show ?thesis
  proof (cases "uint w < 2 ^ 63")
    case True
    then have "(uint w + 2 ^ 63) mod 2 ^ 64 = uint w + 2 ^ 63"
      using b by (intro mod_pos_pos_trivial) simp_all
    with True show ?thesis by (simp add: s)
  next
    case False
    have "(uint w + 2 ^ 63) mod 2 ^ 64 = (uint w + 2 ^ 63 - 2 ^ 64) mod 2 ^ 64"
      by (metis minus_mod_self2)
    also have "\<dots> = uint w + 2 ^ 63 - 2 ^ 64"
      using b False by (intro mod_pos_pos_trivial) simp_all
    finally show ?thesis using False by (simp add: s)
  qed
qed

lemma valid_halves_iff:
  fixes h l :: int
  assumes "0 \<le> l" "l < 2 ^ 32" "0 \<le> h" "h < 2 ^ 32"
  shows "(h < 0x7FFF35F4 \<or> (h = 0x7FFF35F4 \<and> l \<le> 0xF06C58F0)) \<longleftrightarrow>
     0 \<le> (if h * 2 ^ 32 + l < 2 ^ 63 then h * 2 ^ 32 + l else h * 2 ^ 32 + l - 2 ^ 64)
     \<and> (if h * 2 ^ 32 + l < 2 ^ 63 then h * 2 ^ 32 + l else h * 2 ^ 32 + l - 2 ^ 64)
         \<le> 0x7FFF35F4F06C58F0"
  using assms by auto

lemma IsFileTimeValid_ticks:
  "IsFileTimeValid ft \<longleftrightarrow> 0 \<le> ticks ft \<and> ticks ft \<le> MAX_TICKS"
proof -
  let ?hi = "dwHighDateTime ft" and ?lo = "dwLowDateTime ft"
  have hi: "0 \<le> uint ?hi" "uint ?hi < 2 ^ 32" and lo: "0 \<le> uint ?lo" "uint ?lo < 2 ^ 32"
    using uint_lt2p [of ?hi] uint_lt2p [of ?lo] by simp_all
  have v: "IsFileTimeValid ft \<longleftrightarrow>
      uint ?hi < 0x7FFF35F4 \<or> (uint ?hi = 0x7FFF35F4 \<and> uint ?lo \<le> 0xF06C58F0)"
    by (simp add: IsFileTimeValid_def word_less_def word_le_def word_uint_eq_iff)
  show ?thesis
    unfolding v ticks_def sint64_uint uint_QuadPart MAX_TICKS_def
    by (rule valid_halves_iff [OF lo hi])
qed

lemma ticks_inj: "ticks a = ticks b \<Longrightarrow> a = (b :: FILETIME)"
proof -
  assume "ticks a = ticks b"
  then have q: "QuadPart (dwLowDateTime a) (dwHighDateTime a) = QuadPart (dwLowDateTime b) (dwHighDateTime b)"
    by (intro signed_word_eqI [where ?'a = int]) (simp add: ticks_def)
  from arg_cong [OF q, of LowPart] arg_cong [OF q, of HighPart]
  show ?thesis by (simp add: LowPart_QuadPart HighPart_QuadPart)
qed

lemma sint_sub_exact:
  fixes a b :: "'a::len word"
  assumes "- (2 ^ (LENGTH('a) - 1)) \<le> sint a - sint b" "sint a - sint b < 2 ^ (LENGTH('a) - 1)"
  shows "sint (a - b) = sint a - sint b"
  using assms by (simp add: sint_word_ariths signed_take_bit_int_eq_self)

lemma sint_add_exact:
  fixes a b :: "'a::len word"
  assumes "- (2 ^ (LENGTH('a) - 1)) \<le> sint a + sint b" "sint a + sint b < 2 ^ (LENGTH('a) - 1)"
  shows "sint (a + b) = sint a + sint b"
  using assms by (simp add: sint_word_ariths signed_take_bit_int_eq_self)

lemma sint_LLONG [simp]: "sint LLONG_MIN = - (2 ^ 63)" "sint LLONG_MAX = 2 ^ 63 - 1"
  by (simp_all add: LLONG_MIN_def LLONG_MAX_def)

lemma sint64_bounds: "- (2 ^ 63) \<le> sint (w :: 64 word)" "sint (w :: 64 word) < 2 ^ 63"
  using sint_ge [of w] sint_lt [of w] by simp_all

lemma subtract_overflow_check:
  fixes li i :: "64 word"
  shows "(0 <s i \<and> li <s LLONG_MIN + i) \<or> (i <s 0 \<and> LLONG_MAX + i <s li) \<longleftrightarrow>
     sint li - sint i < - (2 ^ 63) \<or> 2 ^ 63 \<le> sint li - sint i"
proof -
  note b = sint64_bounds [of li] sint64_bounds [of i]
  have p: "sint (LLONG_MIN + i) = - (2 ^ 63) + sint i" if "0 < sint i"
    using that b by (subst sint_add_exact) simp_all
  have n: "sint (LLONG_MAX + i) = 2 ^ 63 - 1 + sint i" if "sint i < 0"
    using that b by (subst sint_add_exact) simp_all
  consider "0 < sint i" | "sint i < 0" | "sint i = 0" by linarith
  then show ?thesis
  proof cases
    case 1 then show ?thesis using b by (auto simp: word_sless_alt p)
  next
    case 2 then show ?thesis using b by (auto simp: word_sless_alt n)
  next
    case 3 then show ?thesis using b by (auto simp: word_sless_alt)
  qed
qed

lemma Subtract_invalid:
  "\<not> IsFileTimeValid ft \<Longrightarrow> FileTimeSubtract100nsIntervals ft i = (False, ft)"
  by (simp add: FileTimeSubtract100nsIntervals_def)

lemma Subtract_zero:
  "IsFileTimeValid ft \<Longrightarrow> FileTimeSubtract100nsIntervals ft 0 = (True, ft)"
  by (simp add: FileTimeSubtract100nsIntervals_def)

lemma Subtract_overflow:
  assumes "IsFileTimeValid ft" "i \<noteq> 0"
    and "ticks ft - sint i < - (2 ^ 63) \<or> 2 ^ 63 \<le> ticks ft - sint i"
  shows "FileTimeSubtract100nsIntervals ft i = (False, ft)"
  using assms subtract_overflow_check [of i "QuadPart (dwLowDateTime ft) (dwHighDateTime ft)"]
  by (simp add: FileTimeSubtract100nsIntervals_def ticks_def)

lemma Subtract_exact:
  assumes "IsFileTimeValid ft" "i \<noteq> 0"
    and "- (2 ^ 63) \<le> ticks ft - sint i" "ticks ft - sint i < 2 ^ 63"
  shows "\<exists>ft'. FileTimeSubtract100nsIntervals ft i
            = (0 \<le> ticks ft - sint i \<and> ticks ft - sint i \<le> MAX_TICKS, ft')
          \<and> ticks ft' = ticks ft - sint i"
proof -
  let ?li = "QuadPart (dwLowDateTime ft) (dwHighDateTime ft)"
  let ?ft' = "ft\<lparr>dwLowDateTime := LowPart (?li - i), dwHighDateTime := HighPart (?li - i)\<rparr>"
  have no: "((0 <s i \<and> ?li <s LLONG_MIN + i) \<or> (i <s 0 \<and> LLONG_MAX + i <s ?li)) = False"
    using assms(3,4) unfolding subtract_overflow_check ticks_def by simp
  have t: "ticks ?ft' = ticks ft - sint i"
    using assms(3,4) by (simp add: ticks_def QuadPart_parts sint_sub_exact)
  have "FileTimeSubtract100nsIntervals ft i = (IsFileTimeValid ?ft', ?ft')"
    using assms(1,2) by (simp add: FileTimeSubtract100nsIntervals_def Let_def no)
  then show ?thesis
    using t by (auto simp: IsFileTimeValid_ticks)
qed

lemma sint_neg_exact:
  fixes a :: "64 word"
  assumes "\<not> (a <s 0 \<and> LLONG_MAX + a <s 0)"
  shows "sint (- a) = - sint a"
proof -
  note b = sint64_bounds [of a]
  have "- (2 ^ 63) < sint a"
  proof (rule ccontr)
    assume "\<not> - (2 ^ 63) < sint a"
    then have e: "sint a = - (2 ^ 63)" using b by simp
    then have "sint (LLONG_MAX + a) = 2 ^ 63 - 1 + sint a"
      by (subst sint_add_exact) simp_all
    with e assms show False by (simp add: word_sless_alt)
  qed
  then show ?thesis
    using b by (simp add: sint_word_ariths signed_take_bit_int_eq_self)
qed

text \<open>
  C10. \<open>FileTimeSubtract100nsIntervals\<close> is not atomic on every failure path. With a valid
  \<open>ft\<close> and a nonzero count whose subtraction stays within signed 64 bits but leaves the
  supported range, it returns false and \<open>ft\<close> holds the out-of-range difference. With an
  invalid \<open>ft\<close>, or when the signed overflow is detected, it returns false and \<open>ft\<close> is
  unchanged.
\<close>

theorem FileTimeSubtract100nsIntervals_failure_paths:
  "(IsFileTimeValid ft \<and> intervals \<noteq> 0
      \<and> - (2 ^ 63) \<le> ticks ft - sint intervals \<and> ticks ft - sint intervals < 2 ^ 63
      \<and> (ticks ft - sint intervals < 0 \<or> MAX_TICKS < ticks ft - sint intervals)
    \<longrightarrow> (\<exists>ft'. FileTimeSubtract100nsIntervals ft intervals = (False, ft')
           \<and> ticks ft' = ticks ft - sint intervals
           \<and> \<not> IsFileTimeValid ft' \<and> ft' \<noteq> ft))
   \<and> (\<not> IsFileTimeValid ft
    \<longrightarrow> FileTimeSubtract100nsIntervals ft intervals = (False, ft))
   \<and> (IsFileTimeValid ft \<and> intervals \<noteq> 0
      \<and> (ticks ft - sint intervals < - (2 ^ 63) \<or> 2 ^ 63 \<le> ticks ft - sint intervals)
    \<longrightarrow> FileTimeSubtract100nsIntervals ft intervals = (False, ft))"
proof (intro conjI impI)
  assume a: "IsFileTimeValid ft \<and> intervals \<noteq> 0
      \<and> - (2 ^ 63) \<le> ticks ft - sint intervals \<and> ticks ft - sint intervals < 2 ^ 63
      \<and> (ticks ft - sint intervals < 0 \<or> MAX_TICKS < ticks ft - sint intervals)"
  then obtain ft' where
    r: "FileTimeSubtract100nsIntervals ft intervals
          = (0 \<le> ticks ft - sint intervals \<and> ticks ft - sint intervals \<le> MAX_TICKS, ft')"
    and t: "ticks ft' = ticks ft - sint intervals"
    using Subtract_exact [of ft intervals] by blast
  have "sint intervals \<noteq> 0"
    using a by (metis signed_eq_0_iff)
  then have "ft' \<noteq> ft" using t by auto
  moreover have "\<not> IsFileTimeValid ft'"
    using a t by (auto simp: IsFileTimeValid_ticks)
  ultimately show "\<exists>ft'. FileTimeSubtract100nsIntervals ft intervals = (False, ft')
           \<and> ticks ft' = ticks ft - sint intervals \<and> \<not> IsFileTimeValid ft' \<and> ft' \<noteq> ft"
    using a r t by auto
next
  assume "\<not> IsFileTimeValid ft"
  then show "FileTimeSubtract100nsIntervals ft intervals = (False, ft)"
    by (rule Subtract_invalid)
next
  assume "IsFileTimeValid ft \<and> intervals \<noteq> 0
      \<and> (ticks ft - sint intervals < - (2 ^ 63) \<or> 2 ^ 63 \<le> ticks ft - sint intervals)"
  then show "FileTimeSubtract100nsIntervals ft intervals = (False, ft)"
    using Subtract_overflow by blast
qed

theorem FileTimeSubtract100nsIntervals_failure_paths_witness:
  "FileTimeSubtract100nsIntervals \<lparr>dwLowDateTime = 0, dwHighDateTime = 0\<rparr> 1
     = (False, \<lparr>dwLowDateTime = 0xFFFFFFFF, dwHighDateTime = 0xFFFFFFFF\<rparr>)
   \<and> IsFileTimeValid \<lparr>dwLowDateTime = 0, dwHighDateTime = 0\<rparr>
   \<and> ticks \<lparr>dwLowDateTime = 0, dwHighDateTime = 0\<rparr> - sint (1 :: longlong) = - 1
   \<and> \<not> IsFileTimeValid \<lparr>dwLowDateTime = 0, dwHighDateTime = 0x80000000\<rparr>
   \<and> FileTimeSubtract100nsIntervals \<lparr>dwLowDateTime = 0, dwHighDateTime = 0x80000000\<rparr> 1
     = (False, \<lparr>dwLowDateTime = 0, dwHighDateTime = 0x80000000\<rparr>)
   \<and> ticks \<lparr>dwLowDateTime = 0, dwHighDateTime = 0\<rparr> - sint LLONG_MIN = 2 ^ 63
   \<and> FileTimeSubtract100nsIntervals \<lparr>dwLowDateTime = 0, dwHighDateTime = 0\<rparr> LLONG_MIN
     = (False, \<lparr>dwLowDateTime = 0, dwHighDateTime = 0\<rparr>)"
proof -
  let ?z = "\<lparr>dwLowDateTime = 0, dwHighDateTime = 0\<rparr>"
  let ?n = "\<lparr>dwLowDateTime = 0, dwHighDateTime = 0x80000000\<rparr>"
  have z: "ticks ?z = 0" by (simp add: ticks_def QuadPart_def word_cat_eq)
  have v: "IsFileTimeValid ?z" "\<not> IsFileTimeValid ?n" by (simp_all add: IsFileTimeValid_def)
  have m: "LLONG_MIN \<noteq> 0" by (simp add: LLONG_MIN_def)
  have e: "FileTimeSubtract100nsIntervals ?z 1
     = (False, \<lparr>dwLowDateTime = 0xFFFFFFFF, dwHighDateTime = 0xFFFFFFFF\<rparr>)"
    by code_simp
  from FileTimeSubtract100nsIntervals_failure_paths [of ?z 1]
  have "\<exists>ft'. FileTimeSubtract100nsIntervals ?z 1 = (False, ft') \<and> ticks ft' = - 1"
    using v z by (simp add: MAX_TICKS_def) blast
  then show ?thesis
    using FileTimeSubtract100nsIntervals_failure_paths [of ?n 1]
      FileTimeSubtract100nsIntervals_failure_paths [of ?z LLONG_MIN] v z m e
    by simp
qed

text \<open>
  C8. For every valid \<open>ft\<close> and every count of minutes \<open>m\<close> for which
  \<open>FileTimeAddMinutes\<close> succeeds, \<open>FileTimeSubtractMinutes\<close> with the same \<open>m\<close> on the
  result succeeds too and gives back \<open>ft\<close>.
\<close>

theorem FileTimeAddMinutes_then_SubtractMinutes:
  assumes "IsFileTimeValid ft" and "FileTimeAddMinutes ft m = (True, ft')"
  shows "FileTimeSubtractMinutes ft' m = (True, ft)"
proof -
  define i where "i = m * 10000 * 1000 * 60"
  have g: "\<not> (i <s 0 \<and> LLONG_MAX + i <s 0)"
    and s: "FileTimeSubtract100nsIntervals ft (- i) = (True, ft')"
    using assms(2)
    by (auto simp: FileTimeAddMinutes_def FileTimeAdd100nsIntervals_def i_def split: if_splits)
  have goal: "FileTimeSubtract100nsIntervals ft' i = (True, ft)"
  proof (cases "i = 0")
    case True
    with s assms(1) show ?thesis by (simp add: Subtract_zero)
  next
    case False
    then have ni: "- i \<noteq> 0" by simp
    have n: "sint (- i) = - sint i" by (rule sint_neg_exact [OF g])
    note b = sint64_bounds [of i]
    have r: "0 \<le> ticks ft" "ticks ft \<le> MAX_TICKS"
      using assms(1) by (simp_all add: IsFileTimeValid_ticks)
    have "\<not> (ticks ft - sint (- i) < - (2 ^ 63) \<or> 2 ^ 63 \<le> ticks ft - sint (- i))"
    proof
      assume "ticks ft - sint (- i) < - (2 ^ 63) \<or> 2 ^ 63 \<le> ticks ft - sint (- i)"
      from Subtract_overflow [OF assms(1) ni this] s show False by simp
    qed
    then have no: "- (2 ^ 63) \<le> ticks ft - sint (- i)" "ticks ft - sint (- i) < 2 ^ 63"
      by linarith+
    from Subtract_exact [OF assms(1) ni no] s
    have t: "ticks ft' = ticks ft + sint i" and v: "0 \<le> ticks ft'" "ticks ft' \<le> MAX_TICKS"
      by (auto simp: n)
    have v': "IsFileTimeValid ft'" using v by (simp add: IsFileTimeValid_ticks)
    have bk: "ticks ft' - sint i = ticks ft" using t by simp
    have "- (2 ^ 63) \<le> ticks ft' - sint i" "ticks ft' - sint i < 2 ^ 63"
      using r unfolding bk by (simp_all add: MAX_TICKS_def)
    from Subtract_exact [OF v' False this] obtain ft2 where
      "FileTimeSubtract100nsIntervals ft' i = (True, ft2)" "ticks ft2 = ticks ft"
      using r unfolding bk by auto
    then show ?thesis using ticks_inj by auto
  qed
  then show ?thesis by (simp add: FileTimeSubtractMinutes_def i_def)
qed

theorem FileTimeAddMinutes_then_SubtractMinutes_witness:
  "IsFileTimeValid \<lparr>dwLowDateTime = 0, dwHighDateTime = 0\<rparr>
   \<and> FileTimeAddMinutes \<lparr>dwLowDateTime = 0, dwHighDateTime = 0\<rparr> 1
       = (True, \<lparr>dwLowDateTime = 600000000, dwHighDateTime = 0\<rparr>)
   \<and> FileTimeSubtractMinutes \<lparr>dwLowDateTime = 600000000, dwHighDateTime = 0\<rparr> 1
       = (True, \<lparr>dwLowDateTime = 0, dwHighDateTime = 0\<rparr>)"
proof -
  have v: "IsFileTimeValid \<lparr>dwLowDateTime = 0, dwHighDateTime = 0\<rparr>"
    by (simp add: IsFileTimeValid_def)
  have a: "FileTimeAddMinutes \<lparr>dwLowDateTime = 0, dwHighDateTime = 0\<rparr> 1
       = (True, \<lparr>dwLowDateTime = 600000000, dwHighDateTime = 0\<rparr>)"
    by code_simp
  show ?thesis
    using v a FileTimeAddMinutes_then_SubtractMinutes [OF v a] by simp
qed

text \<open>
  C5. The claim is that \<open>FileTimeAddMinutes\<close> and \<open>FileTimeSubtractMinutes\<close> fail
  whenever the conversion of the minutes to 100 ns intervals overflows signed 64 bits.
  The code multiplies without a check: \<open>2 ^ 55 + 1\<close> minutes are far more than 64 bits
  of intervals hold, the product wraps to the intervals of one minute, and both calls
  report success, having moved the time by one minute.
\<close>

theorem FileTimeAddMinutes_wraps:
  "FileTimeAddMinutes \<lparr>dwLowDateTime = 0, dwHighDateTime = 0\<rparr> 36028797018963969
     = (True, \<lparr>dwLowDateTime = 600000000, dwHighDateTime = 0\<rparr>)
   \<and> FileTimeSubtractMinutes \<lparr>dwLowDateTime = 600000000, dwHighDateTime = 0\<rparr> 36028797018963969
     = (True, \<lparr>dwLowDateTime = 0, dwHighDateTime = 0\<rparr>)
   \<and> sint (36028797018963969 :: longlong) * 60 * 10000000 > 2 ^ 63 - 1"
  by code_simp

section \<open>Bias validation\<close>

text \<open>
  Each subtraction in the guards of \<open>AreTimezoneBiasesValid\<close> is evaluated only where it
  cannot wrap, so each guard compares the integer sum with a bound.
\<close>

lemma sint32_bounds: "- (2 ^ 31) \<le> sint (w :: 32 word)" "sint (w :: 32 word) < 2 ^ 31"
  using sint_ge [of w] sint_lt [of w] by simp_all

lemma bias_upper_check:
  fixes b s :: LONG
  shows "(0 <s s \<and> 24 * 60 - s <s b) \<longleftrightarrow> (0 < sint s \<and> 1440 < sint b + sint s)"
proof (cases "0 < sint s")
  case True
  have "sint (1440 - s) = sint (1440 :: LONG) - sint s"
    using True sint32_bounds [of s] by (intro sint_sub_exact) simp_all
  then show ?thesis using True by (auto simp: word_sless_alt)
next
  case False
  then show ?thesis by (simp add: word_sless_alt)
qed

lemma bias_lower_check:
  fixes b s :: LONG
  shows "(s <s 0 \<and> b <s - (24 * 60) - s) \<longleftrightarrow> (sint s < 0 \<and> sint b + sint s < - 1440)"
proof (cases "sint s < 0")
  case True
  have "sint (- 1440 - s) = sint (- 1440 :: LONG) - sint s"
    using True sint32_bounds [of s] by (intro sint_sub_exact) simp_all
  then show ?thesis using True by (auto simp: word_sless_alt)
next
  case False
  then show ?thesis by (simp add: word_sless_alt)
qed

text \<open>
  C3, as the code has it. The claim is that \<open>AreTimezoneBiasesValid\<close> is true exactly when
  both sums \<open>Bias + StandardBias\<close> and \<open>Bias + DaylightBias\<close> lie within 1440 minutes of
  zero. The code also rejects a \<open>Bias\<close> that alone is out of that range: a rule set with
  \<open>Bias = 2000\<close> and both other biases \<open>- 1000\<close> has both sums at 1000 and is rejected.
  What holds is: the result is true exactly when \<open>Bias\<close> itself and both sums, taken as
  integers without overflow, lie in \<open>[- 1440, 1440]\<close>.
\<close>

theorem AreTimezoneBiasesValid_iff:
  "AreTimezoneBiasesValid tzi \<longleftrightarrow>
     - 1440 \<le> sint (Bias tzi) \<and> sint (Bias tzi) \<le> 1440
     \<and> - 1440 \<le> sint (Bias tzi) + sint (StandardBias tzi)
     \<and> sint (Bias tzi) + sint (StandardBias tzi) \<le> 1440
     \<and> - 1440 \<le> sint (Bias tzi) + sint (DaylightBias tzi)
     \<and> sint (Bias tzi) + sint (DaylightBias tzi) \<le> 1440"
proof -
  have own: "(0 <s Bias tzi \<and> 24 * 60 <s Bias tzi) \<longleftrightarrow> 1440 < sint (Bias tzi)"
    "(Bias tzi <s 0 \<and> Bias tzi <s - (24 * 60)) \<longleftrightarrow> sint (Bias tzi) < - 1440"
    by (auto simp: word_sless_alt)
  show ?thesis
    unfolding AreTimezoneBiasesValid_def Let_def own bias_upper_check bias_lower_check
    by auto
qed

theorem AreTimezoneBiasesValid_iff_witness:
  "AreTimezoneBiasesValid (example_zone 300 0 (- 60) zero_SYSTEMTIME zero_SYSTEMTIME)
   \<and> \<not> AreTimezoneBiasesValid (example_zone 1400 0 100 zero_SYSTEMTIME zero_SYSTEMTIME)"
  using AreTimezoneBiasesValid_iff [of "example_zone 300 0 (- 60) zero_SYSTEMTIME zero_SYSTEMTIME"]
    AreTimezoneBiasesValid_iff [of "example_zone 1400 0 100 zero_SYSTEMTIME zero_SYSTEMTIME"]
  by (simp add: example_zone_def)

theorem AreTimezoneBiasesValid_counterexample:
  "\<not> (AreTimezoneBiasesValid far_bias_zone
      \<longleftrightarrow> (- 1440 \<le> sint (Bias far_bias_zone) + sint (StandardBias far_bias_zone)
           \<and> sint (Bias far_bias_zone) + sint (StandardBias far_bias_zone) \<le> 1440
           \<and> - 1440 \<le> sint (Bias far_bias_zone) + sint (DaylightBias far_bias_zone)
           \<and> sint (Bias far_bias_zone) + sint (DaylightBias far_bias_zone) \<le> 1440))"
  by (simp add: AreTimezoneBiasesValid_def far_bias_zone_def example_zone_def word_sless_alt)

section \<open>Day of the week and transition rules\<close>

text \<open>
  For a month from 1 to 12 and a year that fits a \<open>WORD\<close>, no step of \<open>GetDayOfWeek\<close>
  wraps: the result is \<open>(k + day) mod 7\<close> for a \<open>k\<close> that depends on the month and the
  year only. The day that \<open>TimezoneTimeToLocalTime\<close> computes for a relative rule is
  the first day of the month with the rule's weekday, plus seven days for every further
  occurrence.
\<close>

lemma sakamoto_small: "j < 12 \<Longrightarrow> unat (sakamoto_t ! j) \<le> 6"
proof -
  have "list_all (\<lambda>x. unat x \<le> 6) sakamoto_t" by (simp add: sakamoto_t_def)
  moreover have "length sakamoto_t = 12" by (simp add: sakamoto_t_def)
  ultimately show "j < 12 \<Longrightarrow> unat (sakamoto_t ! j) \<le> 6"
    by (simp add: list_all_length)
qed

lemma days_in_month_big: "j < 12 \<Longrightarrow> 28 \<le> unat (days_in_month ! j)"
proof -
  have "list_all (\<lambda>x. 28 \<le> unat x) days_in_month" by (simp add: days_in_month_def)
  moreover have "length days_in_month = 12" by (simp add: days_in_month_def)
  ultimately show "j < 12 \<Longrightarrow> 28 \<le> unat (days_in_month ! j)"
    by (simp add: list_all_length)
qed

lemma month_index:
  fixes month :: unsigned
  assumes "\<not> (month < 1 \<or> month > 12)"
  shows "unat (month - 1) < 12" "1 \<le> unat month" "unat month \<le> 12"
proof -
  from assms have a: "1 \<le> unat month" "unat month \<le> 12"
    by (simp_all add: word_less_nat_alt not_less)
  then have "unat (month - 1) = unat month - 1"
    by (subst unat_sub) (simp_all add: word_le_nat_alt)
  with a show "unat (month - 1) < 12" "1 \<le> unat month" "unat month \<le> 12" by simp_all
qed

lemma year_base:
  fixes y :: unsigned
  assumes "unat y \<le> 65535"
  shows "unat (y + y div 4 - y div 100 + y div 400) = unat y + unat y div 4 - unat y div 100 + unat y div 400"
proof -
  have d: "unat (y div 4) = unat y div 4" "unat (y div 100) = unat y div 100"
    "unat (y div 400) = unat y div 400"
    by (simp_all add: unat_div)
  have 1: "unat (y + y div 4) = unat y + unat y div 4"
    using assms by (subst unat_add_lem [THEN iffD1]) (simp_all add: d)
  have 2: "unat (y + y div 4 - y div 100) = unat y + unat y div 4 - unat y div 100"
    by (subst unat_sub) (simp_all add: word_le_nat_alt 1 d)
  show ?thesis
    using assms by (subst unat_add_lem [THEN iffD1]) (simp_all add: 2 d)
qed

lemma unat_ucast_small:
  fixes w :: "'a::len word"
  assumes "unat w < 2 ^ LENGTH('b::len)"
  shows "unat (ucast w :: 'b word) = unat w"
  using assms by (simp add: unsigned_ucast_eq take_bit_nat_eq_self)

lemma unat_WORD_bound: "unat (w :: WORD) \<le> 65535"
  using unsigned_less [of w, where ?'a = nat] by simp

lemma unat_ucast_WORD [simp]: "unat (ucast (w :: WORD) :: unsigned) = unat w"
  using unat_WORD_bound [of w] by (intro unat_ucast_small) simp

lemma GetDayOfWeek_shift:
  assumes m: "\<not> (month < 1 \<or> month > 12)" and y: "1 \<le> unat year" "unat year \<le> 65535"
  shows "\<exists>k. \<forall>day. unat day \<le> 65535 \<longrightarrow>
           unat (GetDayOfWeek day month year) = (k + unat day) mod 7"
proof -
  define y' where "y' = year - (if month < 3 then 1 else 0)"
  define K where "K = y' + y' div 4 - y' div 100 + y' div 400 + sakamoto_t ! unat (month - 1)"
  have y'u: "unat y' = unat year - (if month < 3 then 1 else 0)"
    unfolding y'_def using y by (auto simp: unat_sub word_le_nat_alt)
  then have y'b: "unat y' \<le> 65535" using y by (simp split: if_splits)
  have t: "unat (sakamoto_t ! unat (month - 1)) \<le> 6"
    using month_index(1) [OF m] by (rule sakamoto_small)
  have b: "unat y' + unat y' div 4 - unat y' div 100 + unat y' div 400 \<le> 100000"
    using y'b by simp
  have Ku: "unat K = unat y' + unat y' div 4 - unat y' div 100 + unat y' div 400
              + unat (sakamoto_t ! unat (month - 1))"
    unfolding K_def using b t
    by (subst unat_add_lem [THEN iffD1]) (simp_all add: year_base [OF y'b])
  have Kb: "unat K \<le> 100006" using b t by (simp add: Ku)
  have "unat (GetDayOfWeek day month year) = (unat K + unat day) mod 7"
    if d: "unat day \<le> 65535" for day
  proof -
    have s: "unat (K + day) = unat K + unat day"
      using Kb d by (subst unat_add_lem [THEN iffD1]) simp_all
    have "GetDayOfWeek day month year = ucast ((K + day) mod 7)"
      using m by (simp add: GetDayOfWeek_def Let_def K_def y'_def)
    moreover have "unat (ucast ((K + day) mod 7) :: WORD) = unat ((K + day) mod 7)"
    proof -
      have "unat ((K + day) mod 7) < 7" by (simp add: unat_mod)
      then show ?thesis by (intro unat_ucast_small) simp
    qed
    ultimately show ?thesis by (simp add: unat_mod s)
  qed
  then show ?thesis by blast
qed

lemma unat_of_nat32: "n < 2 ^ 32 \<Longrightarrow> unat (of_nat n :: unsigned) = n"
  by (simp add: unat_of_nat)

lemma unat_add_small:
  fixes a b :: unsigned
  shows "unat a + unat b < 2 ^ 32 \<Longrightarrow> unat (a + b) = unat a + unat b"
  using unat_add_lem [of a b] by simp

lemma day0_nat:
  fixes F W A :: nat
  assumes "F \<le> 6" "W \<le> 6"
  shows "(if F \<le> W then (W - F) + 1 + A else (6 - F) + 1 + W + 1 + A)
           = (W + 7 - F) mod 7 + 1 + A"
proof (cases "F \<le> W")
  case True
  then obtain d where W: "W = F + d" using le_Suc_ex by blast
  then have "d < 7" using assms by arith
  then show ?thesis by (simp add: W)
next
  case False
  have m: "(W + 7 - F) mod 7 = W + 7 - F"
    using False by (intro mod_less) arith
  show ?thesis unfolding m using False assms by arith
qed

lemma day0_word:
  fixes fdow dow after :: unsigned
  assumes "unat fdow \<le> 6" "unat dow \<le> 6" "unat after \<le> 28"
  shows "unat (if fdow \<le> dow then (dow - fdow) + 1 + after
               else (6 - fdow) + 1 + dow + 1 + after)
           = (unat dow + 7 - unat fdow) mod 7 + 1 + unat after"
proof -
  have one: "unat (1 :: unsigned) = 1" by simp
  have eq: "unat (if fdow \<le> dow then (dow - fdow) + 1 + after
               else (6 - fdow) + 1 + dow + 1 + after)
      = (if unat fdow \<le> unat dow then (unat dow - unat fdow) + 1 + unat after
         else (6 - unat fdow) + 1 + unat dow + 1 + unat after)"
  proof (cases "fdow \<le> dow")
    case True
    then have u: "unat fdow \<le> unat dow" by (simp add: word_le_nat_alt)
    have 1: "unat (dow - fdow) = unat dow - unat fdow"
      using True by (rule unat_sub)
    have 2: "unat (dow - fdow + 1) = unat (dow - fdow) + unat (1 :: unsigned)"
      using assms by (intro unat_add_small) (simp only: 1 one, simp)
    have 3: "unat (dow - fdow + 1 + after) = unat (dow - fdow + 1) + unat after"
      using assms by (intro unat_add_small) (simp only: 2 1 one, simp)
    show ?thesis by (simp only: True u if_True 3 2 1 one)
  next
    case False
    then have u: "\<not> unat fdow \<le> unat dow" by (simp add: word_le_nat_alt)
    have "fdow \<le> 6" using assms(1) by (simp add: word_le_nat_alt)
    then have 1: "unat (6 - fdow) = 6 - unat fdow"
      by (subst unat_sub) simp_all
    have 2: "unat (6 - fdow + 1) = unat (6 - fdow) + unat (1 :: unsigned)"
      by (intro unat_add_small) (simp only: 1 one, simp)
    have 3: "unat (6 - fdow + 1 + dow) = unat (6 - fdow + 1) + unat dow"
      using assms by (intro unat_add_small) (simp only: 2 1 one, simp)
    have 4: "unat (6 - fdow + 1 + dow + 1) = unat (6 - fdow + 1 + dow) + unat (1 :: unsigned)"
      using assms by (intro unat_add_small) (simp only: 3 2 1 one, simp)
    have 5: "unat (6 - fdow + 1 + dow + 1 + after) = unat (6 - fdow + 1 + dow + 1) + unat after"
      using assms by (intro unat_add_small) (simp only: 4 3 2 1 one, simp)
    show ?thesis by (simp only: False u if_False 5 4 3 2 1 one)
  qed
  show ?thesis
    unfolding eq by (rule day0_nat [OF assms(1,2)])
qed

lemma residue_back:
  fixes F W :: nat
  assumes "F \<le> 6" "W \<le> 6"
  shows "(F + (W + 7 - F) mod 7) mod 7 = W"
proof (cases "F \<le> W")
  case True
  then obtain d where W: "W = F + d" using le_Suc_ex by blast
  then have "d < 7" using assms by arith
  then show ?thesis using assms by (simp add: W)
next
  case False
  have m: "(W + 7 - F) mod 7 = W + 7 - F"
    using False by (intro mod_less) arith
  have "F + (W + 7 - F) = W + 7" using assms by arith
  then show ?thesis unfolding m using assms by simp
qed

lemma dow_of_day0:
  fixes k W a :: nat
  assumes "W \<le> 6"
  shows "(k + ((W + 7 - (k + 1) mod 7) mod 7 + 1 + a * 7)) mod 7 = W"
proof -
  define F where "F = (k + 1) mod 7"
  define r where "r = (W + 7 - F) mod 7"
  have F: "F \<le> 6" unfolding F_def by (simp add: less_Suc_eq_le [symmetric])
  have "k + (r + 1 + a * 7) = (k + 1 + r) + a * 7" by simp
  then have "(k + (r + 1 + a * 7)) mod 7 = (k + 1 + r) mod 7"
    by (simp only: mod_mult_self1)
  also have "\<dots> = (F + r) mod 7"
    unfolding F_def by (simp only: mod_add_left_eq)
  also have "\<dots> = W"
    unfolding r_def by (rule residue_back [OF F assms])
  finally show ?thesis unfolding r_def F_def .
qed

lemma day0_range:
  fixes F W a :: nat
  assumes "a \<le> 4"
  shows "1 \<le> (W + 7 - F) mod 7 + 1 + a * 7" "(W + 7 - F) mod 7 + 1 + a * 7 \<le> 35"
proof -
  have "(W + 7 - F) mod 7 < 7" by simp
  then show "1 \<le> (W + 7 - F) mod 7 + 1 + a * 7" "(W + 7 - F) mod 7 + 1 + a * 7 \<le> 35"
    using assms by arith+
qed

lemma residue_of_day:
  fixes k n :: nat
  assumes "1 \<le> n"
  shows "((k + n) mod 7 + 7 - (k + 1) mod 7) mod 7 = (n - 1) mod 7"
proof -
  define F where "F = (k + 1) mod 7"
  define s where "s = (n - 1) mod 7"
  have F: "F < 7" and s: "s < 7" unfolding F_def s_def by simp_all
  have "k + n = (k + 1) + (n - 1)" using assms by simp
  then have "(k + n) mod 7 = ((k + 1) + (n - 1)) mod 7" by (rule arg_cong)
  also have "\<dots> = (F + s) mod 7"
    unfolding F_def s_def by (simp only: mod_add_eq)
  finally have W: "(k + n) mod 7 = (F + s) mod 7" .
  show ?thesis
  proof (cases "F + s < 7")
    case True
    then have "(F + s) mod 7 = F + s" by (rule mod_less)
    moreover have "F + s + 7 - F = s + 7" by simp
    ultimately have "((k + n) mod 7 + 7 - F) mod 7 = (s + 7) mod 7"
      unfolding W by (simp only:)
    then show ?thesis using s unfolding F_def s_def by simp
  next
    case False
    then obtain d where d: "F + s = 7 + d" using le_Suc_ex [of 7 "F + s"] by auto
    then have "d < 7" using F s by arith
    then have "(F + s) mod 7 = d" unfolding d by simp
    moreover have "d + 7 - F = s" using d by arith
    ultimately have "((k + n) mod 7 + 7 - F) mod 7 = s mod 7"
      unfolding W by (simp only:)
    then show ?thesis using s unfolding F_def s_def by simp
  qed
qed

lemma roundtrip_day:
  fixes k n :: nat
  assumes "1 \<le> n"
  shows "((k + n) mod 7 + 7 - (k + 1) mod 7) mod 7 + 1 + ((n - 1) div 7) * 7 = n"
proof -
  have "(n - 1) mod 7 + ((n - 1) div 7) * 7 = n - 1" by (rule mod_div_mult_eq)
  then show ?thesis
    unfolding residue_of_day [OF assms] using assms by arith
qed

lemma IsYearValid_unat: "IsYearValid y \<longleftrightarrow> 1601 \<le> unat y \<and> unat y \<le> 30827"
  by (simp add: IsYearValid_def word_le_nat_alt)

lemma IsDateValid_fields:
  assumes "IsDateValid d M y"
  shows "IsYearValid y" "\<not> (M < 1 \<or> M > 12)" "1 \<le> unat d" "unat d \<le> 31"
  using assms
  by (auto simp: IsDateValid_def word_less_nat_alt word_le_nat_alt not_less split: if_splits)

lemma IsDateValid_small:
  assumes "IsYearValid y" "\<not> (M < 1 \<or> M > 12)" "1 \<le> unat d" "unat d \<le> 28"
  shows "IsDateValid d M y"
proof -
  have "28 \<le> unat (days_in_month ! unat (M - 1))"
    using month_index(1) [OF assms(2)] by (rule days_in_month_big)
  then have "d \<le> days_in_month ! unat (M - 1)"
    using assms(4) by (simp add: word_le_nat_alt)
  moreover have "\<not> (d < 1 \<or> d > 31)"
    using assms(3,4) by (simp add: word_less_nat_alt)
  ultimately show ?thesis
    using assms(1,2) by (simp add: IsDateValid_def)
qed

lemma relative_fields:
  assumes "IsRelativeTimezoneTimeValid tzt"
  shows "\<not> ((ucast (wMonth tzt) :: unsigned) < 1 \<or> (ucast (wMonth tzt) :: unsigned) > 12)"
    "unat (wDayOfWeek tzt) \<le> 6" "1 \<le> unat (wDay tzt)" "unat (wDay tzt) \<le> 5"
  using assms
  by (simp_all add: IsRelativeTimezoneTimeValid_def word_le_nat_alt word_less_nat_alt not_less)

lemma days_after_word:
  fixes w :: WORD
  assumes "1 \<le> unat w"
  shows "unat (word_of_int ((uint w - 1) * 7) :: unsigned) = (unat w - 1) * 7"
proof -
  have "int (unat w - 1) = uint w - 1" using assms(1) by (simp add: of_nat_diff)
  then have "(uint w - 1) * 7 = int ((unat w - 1) * 7)"
    by (simp only: of_nat_mult of_nat_numeral)
  then have "(word_of_int ((uint w - 1) * 7) :: unsigned) = of_nat ((unat w - 1) * 7)"
    by (simp only: of_int_of_nat_eq)
  moreover have "(unat w - 1) * 7 < 2 ^ 32"
    using unat_WORD_bound [of w] by simp
  ultimately show ?thesis by (simp only: unat_of_nat32)
qed

lemma TimezoneTimeToLocalTime_relative:
  assumes rel: "IsRelativeTimezoneTimeValid tzt" and yv: "IsYearValid y"
    and k: "\<forall>day. unat day \<le> 65535 \<longrightarrow>
              unat (GetDayOfWeek day (ucast (wMonth tzt)) y) = (k + unat day) mod 7"
  shows "\<exists>day0 :: unsigned.
      unat day0 = (unat (wDayOfWeek tzt) + 7 - (k + 1) mod 7) mod 7 + 1
                    + (unat (wDay tzt) - 1) * 7
      \<and> TimezoneTimeToLocalTime tzt y =
          Some (tzt\<lparr>wDay := ucast (if \<not> IsDateValid day0 (ucast (wMonth tzt)) y
                                   then day0 - 7 else day0),
                    wYear := ucast y\<rparr>)"
proof -
  define fdow :: unsigned where "fdow = ucast (GetDayOfWeek 1 (ucast (wMonth tzt)) y)"
  define dow :: unsigned where "dow = ucast (wDayOfWeek tzt)"
  define after :: unsigned where "after = word_of_int ((uint (wDay tzt) - 1) * 7)"
  define day0 where "day0 = (if fdow \<le> dow then (dow - fdow) + 1 + after
                              else (6 - fdow) + 1 + dow + 1 + after)"
  note r = relative_fields [OF rel]
  have f: "unat fdow = (k + 1) mod 7"
    using k [rule_format, of 1] by (simp add: fdow_def)
  then have f6: "unat fdow \<le> 6" by (simp add: less_Suc_eq_le [symmetric])
  have d: "unat dow = unat (wDayOfWeek tzt)" by (simp add: dow_def)
  then have d6: "unat dow \<le> 6" using r(2) by simp
  have a: "unat after = (unat (wDay tzt) - 1) * 7"
    unfolding after_def using r(3) by (rule days_after_word)
  then have a28: "unat after \<le> 28" using r(4) by simp
  have "unat day0 = (unat (wDayOfWeek tzt) + 7 - (k + 1) mod 7) mod 7 + 1
                    + (unat (wDay tzt) - 1) * 7"
    unfolding day0_def day0_word [OF f6 d6 a28] by (simp only: f d a)
  moreover have "TimezoneTimeToLocalTime tzt y =
          Some (tzt\<lparr>wDay := ucast (if \<not> IsDateValid day0 (ucast (wMonth tzt)) y
                                   then day0 - 7 else day0),
                    wYear := ucast y\<rparr>)"
    using rel yv
    by (simp add: TimezoneTimeToLocalTime_def Let_def fdow_def dow_def after_def day0_def)
  ultimately show ?thesis by blast
qed

lemma ucast_ucast_WORD [simp]: "(ucast (ucast (w :: WORD) :: unsigned) :: WORD) = w"
  by (simp add: ucast_up_ucast_id is_up)

lemma sdiv_nonneg: "0 \<le> a \<Longrightarrow> (a :: int) sdiv 7 = a div 7"
  by (simp add: signed_divide_int_def sgn_if)

lemma occurrence_word:
  fixes w :: WORD
  assumes "1 \<le> unat w"
  shows "unat (word_of_int ((uint w - 1) sdiv 7 + 1) :: unsigned) = (unat w - 1) div 7 + 1"
proof -
  have u: "1 \<le> uint w" using assms(1) unfolding unat_eq_nat_uint by linarith
  then have n: "0 \<le> uint w - 1" by simp
  have "int (unat w - 1) = uint w - 1" using assms(1) by (simp add: of_nat_diff)
  then have "int ((unat w - 1) div 7 + 1) = (uint w - 1) div 7 + 1"
    by (simp only: of_nat_add of_nat_div of_nat_numeral of_nat_1)
  then have "(uint w - 1) sdiv 7 + 1 = int ((unat w - 1) div 7 + 1)"
    by (simp only: sdiv_nonneg [OF n])
  then have "(word_of_int ((uint w - 1) sdiv 7 + 1) :: unsigned) = of_nat ((unat w - 1) div 7 + 1)"
    by (simp only: of_int_of_nat_eq)
  moreover have "(unat w - 1) div 7 + 1 < 2 ^ 32"
    using unat_WORD_bound [of w] by simp
  ultimately show ?thesis by (simp only: unat_of_nat32)
qed

text \<open>
  C2. For every strictly valid calendar time \<open>d\<close> (its \<open>wDayOfWeek\<close> is the weekday of
  its date), \<open>LocalTimeToRelativeTimezoneTime\<close> with the promotion flag set succeeds with
  a relative rule: a valid relative timezone time of year 0 with the month, the weekday
  and the time of day of \<open>d\<close>, whose \<open>wDay\<close> is the occurrence of the weekday in the
  month, the fourth occurrence being written as 5 when a week later the month is over.
  \<open>TimezoneTimeToLocalTime\<close> on that rule for the year of \<open>d\<close> gives \<open>d\<close> back, also
  when the fourth occurrence of the weekday is its last in the month.
\<close>

theorem relative_round_trip:
  assumes v: "IsSystemTimeValid d"
  shows "\<exists>tzt. LocalTimeToRelativeTimezoneTime d True = Some tzt
           \<and> IsRelativeTimezoneTimeValid tzt
           \<and> wYear tzt = 0
           \<and> wMonth tzt = wMonth d
           \<and> wDayOfWeek tzt = wDayOfWeek d
           \<and> unat (wDay tzt) =
               (if (unat (wDay d) - 1) div 7 + 1 = 4
                   \<and> \<not> IsDateValid (ucast (wDay d) + 7) (ucast (wMonth d)) (ucast (wYear d))
                then 5 else (unat (wDay d) - 1) div 7 + 1)
           \<and> wHour tzt = wHour d \<and> wMinute tzt = wMinute d
           \<and> wSecond tzt = wSecond d \<and> wMilliseconds tzt = wMilliseconds d
           \<and> TimezoneTimeToLocalTime tzt (ucast (wYear d)) = Some d"
proof -
  define Dw :: unsigned where "Dw = ucast (wDay d)"
  define M :: unsigned where "M = ucast (wMonth d)"
  define Y :: unsigned where "Y = ucast (wYear d)"
  define n where "n = unat (wDay d)"
  from v have iv: "IsSystemTimeValid_IgnoreDayOfWeek d"
    and g: "wDayOfWeek d = GetDayOfWeek Dw M Y"
    by (simp_all add: IsSystemTimeValid_def Dw_def M_def Y_def)
  from iv have dv: "IsDateValid Dw M Y"
    and tm: "wHour d \<le> 23" "wMinute d \<le> 59" "wSecond d \<le> 59" "wMilliseconds d \<le> 999"
    by (simp_all add: IsSystemTimeValid_IgnoreDayOfWeek_def Dw_def M_def Y_def)
  note fl = IsDateValid_fields [OF dv]
  have nD: "unat Dw = n" by (simp add: Dw_def n_def)
  have n1: "1 \<le> n" "n \<le> 31" using fl(3,4) by (simp_all add: nD)
  have yb: "1 \<le> unat Y" "unat Y \<le> 65535"
    using fl(1) by (simp_all add: IsYearValid_unat)
  from GetDayOfWeek_shift [OF fl(2) yb] obtain k where
    k: "\<forall>day. unat day \<le> 65535 \<longrightarrow> unat (GetDayOfWeek day M Y) = (k + unat day) mod 7"
    by blast
  have gu: "unat (GetDayOfWeek Dw M Y) = (k + n) mod 7"
    using k [rule_format, of Dw] n1 by (simp add: nD)
  define occ0 :: unsigned where "occ0 = word_of_int ((uint (wDay d) - 1) sdiv 7 + 1)"
  define p where "p \<longleftrightarrow> occ0 = 4 \<and> \<not> IsDateValid (Dw + 7) M Y"
  define occ where "occ = (if p then 5 else occ0)"
  define tzt where "tzt = d\<lparr>wDay := ucast occ, wDayOfWeek := GetDayOfWeek Dw M Y, wYear := 0\<rparr>"
  have o0: "unat occ0 = (n - 1) div 7 + 1"
    unfolding occ0_def n_def using n1(1) unfolding n_def by (rule occurrence_word)
  have "(n - 1) div 7 \<le> 30 div 7"
    using n1 by (intro div_le_mono) simp
  then have q4: "(n - 1) div 7 \<le> 4" by simp
  have ob: "1 \<le> unat occ" "unat occ \<le> 5"
    using q4 by (simp_all add: occ_def o0)
  have ou: "unat (ucast occ :: WORD) = unat occ"
    using ob by (intro unat_ucast_small) simp
  have L: "LocalTimeToRelativeTimezoneTime d True = Some tzt"
    using iv
    by (simp add: LocalTimeToRelativeTimezoneTime_def Let_def tzt_def occ_def p_def occ0_def
        Dw_def M_def Y_def)
  have mo: "wMonth d \<ge> 1 \<and> wMonth d \<le> 12"
    using month_index(2,3) [OF fl(2)] by (simp add: M_def word_le_nat_alt)
  have rel: "IsRelativeTimezoneTimeValid tzt"
    using mo tm ob gu
    by (simp add: IsRelativeTimezoneTimeValid_def tzt_def word_le_nat_alt ou
        less_Suc_eq_le [symmetric])
  have k': "\<forall>day. unat day \<le> 65535 \<longrightarrow>
      unat (GetDayOfWeek day (ucast (wMonth tzt)) Y) = (k + unat day) mod 7"
    using k by (simp add: tzt_def M_def)
  from TimezoneTimeToLocalTime_relative [OF rel fl(1) k'] obtain day0 :: unsigned where
    d0: "unat day0 = (unat (wDayOfWeek tzt) + 7 - (k + 1) mod 7) mod 7 + 1
                    + (unat (wDay tzt) - 1) * 7"
    and T: "TimezoneTimeToLocalTime tzt Y =
          Some (tzt\<lparr>wDay := ucast (if \<not> IsDateValid day0 (ucast (wMonth tzt)) Y
                                   then day0 - 7 else day0),
                    wYear := ucast Y\<rparr>)"
    by blast
  have d0': "unat day0 = ((k + n) mod 7 + 7 - (k + 1) mod 7) mod 7 + 1 + (unat occ - 1) * 7"
    using d0 by (simp add: tzt_def gu ou)
  have day: "(if \<not> IsDateValid day0 M Y then day0 - 7 else day0) = Dw"
  proof (cases p)
    case False
    then have "unat occ = (n - 1) div 7 + 1" by (simp add: occ_def o0)
    then have "unat day0 = n"
      using roundtrip_day [OF n1(1), of k] by (simp add: d0')
    then have "day0 = Dw" by (simp add: word_unat_eq_iff nD)
    then show ?thesis using dv by simp
  next
    case True
    then have q: "(n - 1) div 7 + 1 = 4" and nv: "\<not> IsDateValid (Dw + 7) M Y"
      using o0 by (simp_all add: p_def word_unat_eq_iff)
    have "unat occ = 5" using True by (simp add: occ_def)
    then have "unat day0 = n + 7"
      using roundtrip_day [OF n1(1), of k] q by (simp add: d0')
    moreover have "unat (Dw + 7) = n + 7"
      using n1 by (subst unat_add_small) (simp_all add: nD)
    ultimately have "day0 = Dw + 7" by (simp add: word_unat_eq_iff)
    then show ?thesis using nv by simp
  qed
  have e: "ucast Dw = wDay d" "ucast Y = wYear d"
    by (simp_all add: Dw_def Y_def)
  have "tzt\<lparr>wDay := ucast Dw, wYear := ucast Y\<rparr> = d"
    by (simp add: tzt_def e g [symmetric])
  then have "TimezoneTimeToLocalTime tzt (ucast (wYear d)) = Some d"
    using T day by (simp add: Y_def [symmetric] tzt_def M_def)
  moreover have "wYear tzt = 0" "wMonth tzt = wMonth d" "wDayOfWeek tzt = wDayOfWeek d"
    "wHour tzt = wHour d" "wMinute tzt = wMinute d"
    "wSecond tzt = wSecond d" "wMilliseconds tzt = wMilliseconds d"
    by (simp_all add: tzt_def g)
  moreover have "unat (wDay tzt) =
      (if (unat (wDay d) - 1) div 7 + 1 = 4
          \<and> \<not> IsDateValid (ucast (wDay d) + 7) (ucast (wMonth d)) (ucast (wYear d))
       then 5 else (unat (wDay d) - 1) div 7 + 1)"
  proof -
    have "occ0 = 4 \<longleftrightarrow> (n - 1) div 7 + 1 = 4"
      using o0 by (simp add: word_unat_eq_iff)
    then have "unat occ = (if (n - 1) div 7 + 1 = 4 \<and> \<not> IsDateValid (Dw + 7) M Y
        then 5 else (n - 1) div 7 + 1)"
      by (simp add: occ_def p_def o0)
    then show ?thesis
      by (simp add: tzt_def ou n_def Dw_def M_def Y_def)
  qed
  ultimately show ?thesis using L rel by blast
qed

theorem relative_round_trip_witness:
  "IsSystemTimeValid (example_time 2015 2 28 6 0 0)
   \<and> LocalTimeToRelativeTimezoneTime (example_time 2015 2 28 6 0 0) True
       = Some (example_time 0 2 5 6 0 0)
   \<and> IsRelativeTimezoneTimeValid (example_time 0 2 5 6 0 0)
   \<and> TimezoneTimeToLocalTime (example_time 0 2 5 6 0 0) 2015
       = Some (example_time 2015 2 28 6 0 0)"
proof -
  have v: "IsSystemTimeValid (example_time 2015 2 28 6 0 0)"
    by code_simp
  have L: "LocalTimeToRelativeTimezoneTime (example_time 2015 2 28 6 0 0) True
       = Some (example_time 0 2 5 6 0 0)"
    by code_simp
  have y: "ucast (wYear (example_time 2015 2 28 6 0 0)) = (2015 :: unsigned)"
    by (simp add: example_time_def)
  from relative_round_trip [OF v] L y v show ?thesis by auto
qed

lemma TimezoneTimeToLocalTime_day_of_week:
  assumes "TimezoneTimeToLocalTime tzt y = Some l"
  shows "wDayOfWeek l = GetDayOfWeek (ucast (wDay l)) (ucast (wMonth l)) (ucast (wYear l))"
proof (cases "IsRelativeTimezoneTimeValid tzt")
  case False
  with assms show ?thesis
    by (auto simp: TimezoneTimeToLocalTime_def split: if_splits)
next
  case rel: True
  with assms have yv: "IsYearValid y"
    by (auto simp: TimezoneTimeToLocalTime_def split: if_splits)
  define M :: unsigned where "M = ucast (wMonth tzt)"
  note r = relative_fields [OF rel]
  have yb: "1 \<le> unat y" "unat y \<le> 65535"
    using yv by (simp_all add: IsYearValid_unat)
  from GetDayOfWeek_shift [OF r(1) yb] obtain k where
    k: "\<forall>day. unat day \<le> 65535 \<longrightarrow> unat (GetDayOfWeek day M y) = (k + unat day) mod 7"
    unfolding M_def by blast
  from TimezoneTimeToLocalTime_relative [OF rel yv k [unfolded M_def]] obtain day0 :: unsigned where
    d0: "unat day0 = (unat (wDayOfWeek tzt) + 7 - (k + 1) mod 7) mod 7 + 1
                    + (unat (wDay tzt) - 1) * 7"
    and T: "TimezoneTimeToLocalTime tzt y =
          Some (tzt\<lparr>wDay := ucast (if \<not> IsDateValid day0 M y then day0 - 7 else day0),
                    wYear := ucast y\<rparr>)"
    unfolding M_def by blast
  define day where "day = (if \<not> IsDateValid day0 M y then day0 - 7 else day0)"
  have a4: "unat (wDay tzt) - 1 \<le> 4" using r(4) by simp
  note rg = day0_range [OF a4, of "unat (wDayOfWeek tzt)" "(k + 1) mod 7", folded d0]
  have w0: "(k + unat day0) mod 7 = unat (wDayOfWeek tzt)"
    unfolding d0 by (rule dow_of_day0 [OF r(2)])
  have du: "unat day \<le> 35 \<and> (k + unat day) mod 7 = unat (wDayOfWeek tzt)"
  proof (cases "IsDateValid day0 M y")
    case True
    then show ?thesis using rg w0 by (simp add: day_def)
  next
    case False
    have "\<not> unat day0 \<le> 28"
      using False IsDateValid_small [OF yv r(1) rg(1), folded M_def] by blast
    then have b: "7 \<le> unat day0" by simp
    then have "7 \<le> day0" by (simp add: word_le_nat_alt)
    then have u: "unat (day0 - 7) = unat day0 - 7"
      by (subst unat_sub) simp_all
    have "k + unat day0 = (k + (unat day0 - 7)) + 7" using b by simp
    then have "(k + unat day0) mod 7 = (k + (unat day0 - 7)) mod 7"
      by (simp only: mod_add_self2)
    then show ?thesis using False rg w0 by (simp add: day_def u)
  qed
  have back_day: "ucast (ucast day :: WORD) = day"
  proof -
    have "unat (ucast day :: WORD) = unat day"
      using du by (intro unat_ucast_small) simp
    then show ?thesis by (simp add: word_unat_eq_iff)
  qed
  have back_year: "ucast (ucast y :: WORD) = y"
  proof -
    have "unat (ucast y :: WORD) = unat y"
      using yb by (intro unat_ucast_small) simp
    then show ?thesis by (simp add: word_unat_eq_iff)
  qed
  have "unat (GetDayOfWeek day M y) = unat (wDayOfWeek tzt)"
    using k [rule_format, of day] du by simp
  then have "GetDayOfWeek day M y = wDayOfWeek tzt"
    by (simp add: word_unat_eq_iff)
  moreover have "l = tzt\<lparr>wDay := ucast day, wYear := ucast y\<rparr>"
    using assms T by (simp add: day_def)
  ultimately show ?thesis
    by (simp add: back_day back_year M_def [symmetric])
qed

lemma CompareSystemTimes_IgnoreDayOfWeek_0:
  assumes "CompareSystemTimes_IgnoreDayOfWeek a b = 0"
  shows "wYear a = wYear b" "wMonth a = wMonth b" "wDay a = wDay b"
  using assms
  by (auto simp: CompareSystemTimes_IgnoreDayOfWeek_def split: if_splits)

text \<open>
  C4, as the code has it. The claim is that \<open>CompareLocalTimeToTimezoneTime\<close> is the
  comparison that ignores the day of the week, for every local time. The code calls
  \<open>CompareSystemTimes\<close>, which breaks a tie on \<open>wDayOfWeek\<close>: 2015-03-08 02:00 with
  \<open>wDayOfWeek = 3\<close> against the rule "second Sunday of March, 02:00" compares as 1, and
  as 0 once \<open>wDayOfWeek\<close> is 0. What holds is: for every strictly valid local time and
  every rule that converts for the local time's year, the result is the comparison
  ignoring the day of the week of the local time against the converted rule.
\<close>

theorem CompareLocalTimeToTimezoneTime_consistent:
  assumes "IsSystemTimeValid local"
    and "TimezoneTimeToLocalTime tzt (ucast (wYear local)) = Some local2"
  shows "CompareLocalTimeToTimezoneTime local tzt
           = CompareSystemTimes_IgnoreDayOfWeek local local2"
proof (cases "CompareSystemTimes_IgnoreDayOfWeek local local2 = 0")
  case False
  then show ?thesis
    using assms(2) by (simp add: CompareLocalTimeToTimezoneTime_def CompareSystemTimes_def)
next
  case True
  note e = CompareSystemTimes_IgnoreDayOfWeek_0 [OF True]
  have "wDayOfWeek local = wDayOfWeek local2"
    using assms(1) TimezoneTimeToLocalTime_day_of_week [OF assms(2)]
    by (simp add: IsSystemTimeValid_def e)
  then show ?thesis
    using assms(2) True
    by (simp add: CompareLocalTimeToTimezoneTime_def CompareSystemTimes_def)
qed

theorem CompareLocalTimeToTimezoneTime_consistent_witness:
  "IsSystemTimeValid (example_time 2015 3 8 0 1 59)
   \<and> TimezoneTimeToLocalTime (example_time 0 3 2 0 2 0)
         (ucast (wYear (example_time 2015 3 8 0 1 59)))
       = Some (example_time 2015 3 8 0 2 0)
   \<and> CompareLocalTimeToTimezoneTime (example_time 2015 3 8 0 1 59) (example_time 0 3 2 0 2 0)
       = - 1"
proof -
  have v: "IsSystemTimeValid (example_time 2015 3 8 0 1 59)"
    by code_simp
  have T: "TimezoneTimeToLocalTime (example_time 0 3 2 0 2 0)
         (ucast (wYear (example_time 2015 3 8 0 1 59)))
       = Some (example_time 2015 3 8 0 2 0)"
    by code_simp
  have c: "CompareSystemTimes_IgnoreDayOfWeek (example_time 2015 3 8 0 1 59)
       (example_time 2015 3 8 0 2 0) = - 1"
    by code_simp
  from CompareLocalTimeToTimezoneTime_consistent [OF v T] v T c show ?thesis by simp
qed

theorem CompareLocalTimeToTimezoneTime_counterexample:
  "TimezoneTimeToLocalTime (example_time 0 3 2 0 2 0)
         (ucast (wYear (example_time 2015 3 8 3 2 0)))
       = Some (example_time 2015 3 8 0 2 0)
   \<and> CompareSystemTimes_IgnoreDayOfWeek (example_time 2015 3 8 3 2 0)
         (example_time 2015 3 8 0 2 0) = 0
   \<and> CompareLocalTimeToTimezoneTime (example_time 2015 3 8 3 2 0) (example_time 0 3 2 0 2 0)
       = 1
   \<and> CompareLocalTimeToTimezoneTime (example_time 2015 3 8 0 2 0) (example_time 0 3 2 0 2 0)
       = 0"
  by code_simp

section \<open>The reference conversions\<close>

text \<open>
  The reference conversions agree with the library at the two ends of its range: tick 0
  is the first instant of 1601, a Monday, and the largest tick count that
  \<open>IsFileTimeValid\<close> accepts is the last millisecond of 30827, "the same time as max
  SYSTEMTIME" in the words of the source; both times are valid with their day of the
  week, and convert back to their ticks.
\<close>

lemma reference_api_range:
  "FileTimeToSystemTime_ref \<lparr>dwLowDateTime = 0, dwHighDateTime = 0\<rparr>
     = Some (example_time 1601 1 1 1 0 0)
   \<and> SystemTimeToFileTime_ref (example_time 1601 1 1 1 0 0)
     = Some \<lparr>dwLowDateTime = 0, dwHighDateTime = 0\<rparr>
   \<and> IsSystemTimeValid (example_time 1601 1 1 1 0 0)
   \<and> FileTimeToSystemTime_ref \<lparr>dwLowDateTime = 0xF06C58F0, dwHighDateTime = 0x7FFF35F4\<rparr>
     = Some ((example_time 30827 12 31 5 23 59)\<lparr>wSecond := 59, wMilliseconds := 999\<rparr>)
   \<and> SystemTimeToFileTime_ref
       ((example_time 30827 12 31 5 23 59)\<lparr>wSecond := 59, wMilliseconds := 999\<rparr>)
     = Some \<lparr>dwLowDateTime = 0xF06C58F0, dwHighDateTime = 0x7FFF35F4\<rparr>
   \<and> IsSystemTimeValid
       ((example_time 30827 12 31 5 23 59)\<lparr>wSecond := 59, wMilliseconds := 999\<rparr>)"
  by code_simp

section \<open>Resolving the observance\<close>

text \<open>
  Every exit of \<open>GetLocalTimeForTimezone\<close> is one of three: the zero returned for a year
  out of range, \<open>TIME_ZONE_ID_INVALID\<close> with \<open>local_time\<close> untouched, or the macro
  \<open>COPY_TO_local_time\<close> on one of the candidates. In strict mode with a year in range,
  an identifier other than \<open>TIME_ZONE_ID_INVALID\<close> therefore comes with a local time of
  the year asked for, the year of the UTC time standing in for a \<open>tzi_year\<close> of zero.
\<close>

lemma COPY_TO_local_time_strict:
  assumes "COPY_TO_local_time True y t i = (tzid, lt')" "tzid \<noteq> TIME_ZONE_ID_INVALID"
  shows "ucast (wYear lt') = y" "lt' = t" "tzid = i"
  using assms by (auto simp: COPY_TO_local_time_def split: if_splits)


lemma GetLocalTimeForTimezone_cases:
  assumes "GetLocalTimeForTimezone api lt tzi utc y0 strict = r"
    and "y = (if y0 = 0 then ucast (wYear utc) else y0)"
  shows "(\<not> IsYearValid y \<and> r = (0, lt))
     \<or> (IsYearValid y \<and> r = (TIME_ZONE_ID_INVALID, lt))
     \<or> (IsYearValid y \<and> (\<exists>t i. i \<in> {TIME_ZONE_ID_UNKNOWN, TIME_ZONE_ID_STANDARD, TIME_ZONE_ID_DAYLIGHT}
            \<and> r = COPY_TO_local_time strict y t i))"
  using assms
  unfolding GetLocalTimeForTimezone_def Let_def
  by (auto split: option.splits if_splits)

lemma GetLocalTimeForTimezone_strict_year:
  assumes r: "GetLocalTimeForTimezone api lt tzi utc y0 True = (tzid, lt')"
    and y: "y = (if y0 = 0 then ucast (wYear utc) else y0)"
    and yv: "IsYearValid y"
    and ok: "tzid \<noteq> TIME_ZONE_ID_INVALID"
  shows "ucast (wYear lt') = y"
proof -
  from GetLocalTimeForTimezone_cases [OF r y] yv ok
  obtain t i where "(tzid, lt') = COPY_TO_local_time True y t i" by auto
  then show ?thesis
    using COPY_TO_local_time_strict(1) [of y t i tzid lt'] ok by simp
qed

text \<open>
  C7. The claim is that in strict mode a success code (Standard, Daylight or Unknown)
  always comes with an output local time of the year \<open>tzi_year\<close>. For a \<open>tzi_year\<close>
  outside \<open>[1601, 30827]\<close> the code leaves through \<open>return false\<close>: the caller receives
  0, which is \<open>TIME_ZONE_ID_UNKNOWN\<close>, and \<open>local_time\<close> is not written at all. With
  \<open>tzi_year = 40000\<close> and a \<open>local_time\<close> holding zeros, the code reports Unknown with
  an output year of 0.
\<close>

theorem GetLocalTimeForTimezone_invalid_year:
  "GetLocalTimeForTimezone reference_api zero_SYSTEMTIME zone_ahead utc_2014_12_31_23_30 40000 True
     = (TIME_ZONE_ID_UNKNOWN, zero_SYSTEMTIME)
   \<and> TIME_ZONE_ID_UNKNOWN \<noteq> TIME_ZONE_ID_INVALID
   \<and> ucast (wYear zero_SYSTEMTIME) \<noteq> (40000 :: unsigned)"
  by code_simp

lemma CompareSystemTimes_same [simp]: "CompareSystemTimes b b = 0"
  by (simp add: CompareSystemTimes_def CompareSystemTimes_IgnoreDayOfWeek_def)

lemma TIME_ZONE_ID_distinct [simp]:
  "TIME_ZONE_ID_DAYLIGHT \<noteq> TIME_ZONE_ID_UNKNOWN" "TIME_ZONE_ID_UNKNOWN \<noteq> TIME_ZONE_ID_DAYLIGHT"
  "TIME_ZONE_ID_DAYLIGHT \<noteq> TIME_ZONE_ID_INVALID" "TIME_ZONE_ID_UNKNOWN \<noteq> TIME_ZONE_ID_INVALID"
  "TIME_ZONE_ID_STANDARD \<noteq> TIME_ZONE_ID_INVALID"
  by (simp_all add: TIME_ZONE_ID_DAYLIGHT_def TIME_ZONE_ID_UNKNOWN_def TIME_ZONE_ID_INVALID_def
      TIME_ZONE_ID_STANDARD_def)

text \<open>
  Outside strict mode the only failures are the rejection of the year, of the rule set
  and of the UTC time.
\<close>

lemma GetLocalTimeForTimezone_non_strict:
  assumes "IsYearValid (if y0 = 0 then ucast (wYear utc) else y0)"
    and "IsTimezoneInfoValid tzi True"
    and "SystemTimeSubtractMinutes api utc (scast (Bias tzi)) = Some u"
    and "SystemTimeSubtractMinutes api utc (scast (Bias tzi + StandardBias tzi)) = Some sd"
    and "SystemTimeSubtractMinutes api utc (scast (Bias tzi + DaylightBias tzi)) = Some dl"
  shows "fst (GetLocalTimeForTimezone api lt tzi utc y0 False) \<noteq> TIME_ZONE_ID_INVALID"
  using assms
  unfolding GetLocalTimeForTimezone_def Let_def COPY_TO_local_time_def
  by (simp split: option.splits)




section \<open>The year boundary\<close>


















end
